theory Spec2Isabelle
  imports Complex_Main
begin

section \<open>Strings\<close>

text \<open>
  A JavaScript string is a sequence of UTF-16 code units. A code unit is modelled as a
  natural number, so that every string the program can see is covered; \<open>str\<close> turns an
  ASCII literal into such a sequence.
\<close>

type_synonym code_unit = nat
type_synonym jsstring = "code_unit list"

definition str :: "string \<Rightarrow> jsstring" where
  "str s = map of_char s"

definition cu :: "char \<Rightarrow> code_unit" where
  "cu c = of_char c"

text \<open>The line feed, written \<open>\n\<close> in the source's literals.\<close>

definition nl :: jsstring where
  "nl = [10]"

section \<open>Regular expressions\<close>

text \<open>
  The source uses five regular expression literals, all built from character classes,
  sequence, alternation, a greedy or lazy star over one character class, and one capture
  group. \<open>run\<close> lists the ways a pattern can match at the start of the input in the
  order in which a backtracking matcher tries them, so the head of the list is the match
  the engine reports. A state is the list of captures so far and the rest of the input.
\<close>

datatype regex =
    Atom "code_unit \<Rightarrow> bool"
  | Eps
  | Seq regex regex
  | Alt regex regex
  | Star "code_unit \<Rightarrow> bool"
  | LazyStar "code_unit \<Rightarrow> bool"
  | Group regex

fun run :: "regex \<Rightarrow> jsstring list \<times> jsstring \<Rightarrow> (jsstring list \<times> jsstring) list" where
  "run (Atom p) (cs, []) = []"
| "run (Atom p) (cs, x # xs) = (if p x then [(cs, xs)] else [])"
| "run Eps st = [st]"
| "run (Seq r1 r2) st = concat (map (run r2) (run r1 st))"
| "run (Alt r1 r2) st = run r1 st @ run r2 st"
| "run (Star p) (cs, []) = [(cs, [])]"
| "run (Star p) (cs, x # xs) = (if p x then run (Star p) (cs, xs) else []) @ [(cs, x # xs)]"
| "run (LazyStar p) (cs, []) = [(cs, [])]"
| "run (LazyStar p) (cs, x # xs) = (cs, x # xs) # (if p x then run (LazyStar p) (cs, xs) else [])"
| "run (Group r) (cs, s) =
     map (\<lambda>(cs', rest). (cs' @ [take (length s - length rest) s], rest)) (run r (cs, s))"

text \<open>
  \<open>String.prototype.match\<close> with a pattern that has no \<open>g\<close> flag: the leftmost start
  position at which the pattern matches, and there the first match in backtracking
  order. The result is the matched text \<open>match[0]\<close> with the list of the captures
  \<open>match[1]\<close>, ..., or \<open>None\<close> for \<open>null\<close>.
\<close>

fun string_match :: "regex \<Rightarrow> jsstring \<Rightarrow> (jsstring \<times> jsstring list) option" where
  "string_match r s =
     (case run r ([], s) of
        (cs, rest) # _ \<Rightarrow> Some (take (length s - length rest) s, cs)
      | [] \<Rightarrow> (case s of [] \<Rightarrow> None | _ # t \<Rightarrow> string_match r t))"

subsection \<open>Character classes\<close>

definition digit :: "code_unit \<Rightarrow> bool" where
  "digit u \<longleftrightarrow> 48 \<le> u \<and> u \<le> 57"

text \<open>\<open>\s\<close>: the white space and line terminator code units of ECMAScript.\<close>

definition space :: "code_unit \<Rightarrow> bool" where
  "space u \<longleftrightarrow> u \<in> {9, 10, 11, 12, 13, 32, 160, 5760, 8232, 8233, 8239, 8287, 12288, 65279}
     \<or> (8192 \<le> u \<and> u \<le> 8202)"

text \<open>\<open>.\<close> without the \<open>s\<close> flag: anything but a line terminator.\<close>

definition dot :: "code_unit \<Rightarrow> bool" where
  "dot u \<longleftrightarrow> u \<notin> {10, 13, 8232, 8233}"

text \<open>\<open>[\s\S]\<close>\<close>

definition space_or_not :: "code_unit \<Rightarrow> bool" where
  "space_or_not u \<longleftrightarrow> space u \<or> \<not> space u"

definition chr :: "char \<Rightarrow> code_unit \<Rightarrow> bool" where
  "chr c u \<longleftrightarrow> u = cu c"

text \<open>
  A letter of a pattern with the \<open>i\<close> flag. The patterns' letters are ASCII, and without
  the \<open>u\<close> flag no code unit from 128 on is canonicalised to an ASCII one, so only the
  two ASCII cases of the letter match.
\<close>

definition upper :: "code_unit \<Rightarrow> code_unit" where
  "upper u = (if 97 \<le> u \<and> u \<le> 122 then u - 32 else u)"

definition chr_i :: "char \<Rightarrow> code_unit \<Rightarrow> bool" where
  "chr_i c u \<longleftrightarrow> upper u = upper (cu c)"

fun lit :: "string \<Rightarrow> regex" where
  "lit [] = Eps"
| "lit [c] = Atom (chr c)"
| "lit (c # cs) = Seq (Atom (chr c)) (lit cs)"

fun lit_i :: "string \<Rightarrow> regex" where
  "lit_i [] = Eps"
| "lit_i [c] = Atom (chr_i c)"
| "lit_i (c # cs) = Seq (Atom (chr_i c)) (lit_i cs)"

definition Plus :: "(code_unit \<Rightarrow> bool) \<Rightarrow> regex" where
  "Plus p = Seq (Atom p) (Star p)"

definition Opt :: "regex \<Rightarrow> regex" where
  "Opt r = Alt r Eps"

text \<open>\<open>/\{[\s\S]*\}/\<close>\<close>

definition json_regex :: regex where
  "json_regex = Seq (Atom (chr CHR ''{'')) (Seq (Star space_or_not) (Atom (chr CHR ''}'')))"

section \<open>JSON values\<close>

text \<open>
  The values \<open>JSON.parse\<close> produces and \<open>JSON.stringify\<close> accepts. A number is its
  exact rational value; the rounding of IEEE doubles is not modelled. An object is the
  list of its properties in insertion order, with distinct keys.
\<close>

datatype json =
    JNull
  | JBool bool
  | JNum rat
  | JStr jsstring
  | JArr "json list"
  | JObj "(jsstring \<times> json) list"

text \<open>\<open>obj[k]\<close>: \<open>None\<close> is \<open>undefined\<close>.\<close>

fun get :: "json \<Rightarrow> jsstring \<Rightarrow> json option" where
  "get (JObj kvs) k = map_of kvs k"
| "get _ k = None"

fun keys :: "json \<Rightarrow> jsstring list" where
  "keys (JObj kvs) = map fst kvs"
| "keys _ = []"

text \<open>Defining a property: an existing key keeps its place and takes the new value.\<close>

fun put :: "jsstring \<Rightarrow> json \<Rightarrow> (jsstring \<times> json) list \<Rightarrow> (jsstring \<times> json) list" where
  "put k v [] = [(k, v)]"
| "put k v ((k', v') # kvs) = (if k = k' then (k, v) # kvs else (k', v') # put k v kvs)"

text \<open>\<open>ToBoolean\<close>, as used by \<open>||\<close>, \<open>&&\<close> and \<open>if\<close>.\<close>

fun truthy :: "json \<Rightarrow> bool" where
  "truthy JNull = False"
| "truthy (JBool b) = b"
| "truthy (JNum r) = (r \<noteq> 0)"
| "truthy (JStr s) = (s \<noteq> [])"
| "truthy (JArr _) = True"
| "truthy (JObj _) = True"

text \<open>\<open>a || b\<close> where \<open>a\<close> may be \<open>null\<close> or \<open>undefined\<close> (\<open>None\<close>).\<close>

fun or_else :: "json option \<Rightarrow> json \<Rightarrow> json" where
  "or_else None d = d"
| "or_else (Some v) d = (if truthy v then v else d)"

section \<open>Numbers as text\<close>

definition digit_char :: "nat \<Rightarrow> code_unit" where
  "digit_char d = 48 + d"

fun nat_text :: "nat \<Rightarrow> jsstring" where
  "nat_text n = (if n < 10 then [digit_char n] else nat_text (n div 10) @ [digit_char (n mod 10)])"

declare nat_text.simps [simp del]

text \<open>The value of a string of decimal digits.\<close>

definition digits_val :: "jsstring \<Rightarrow> nat" where
  "digits_val ds = foldl (\<lambda>n d. 10 * n + (d - 48)) 0 ds"

text \<open>
  The digits after the decimal point of a fraction \<open>0 \<le> r < 1\<close>, at most \<open>n\<close> of them.
\<close>

fun frac_text :: "nat \<Rightarrow> rat \<Rightarrow> jsstring" where
  "frac_text 0 r = []"
| "frac_text (Suc n) r =
     (if r = 0 then []
      else digit_char (nat \<lfloor>10 * r\<rfloor>) # frac_text n (10 * r - of_int \<lfloor>10 * r\<rfloor>))"

text \<open>
  \<open>Number::toString\<close> in plain decimal notation. Every double is a finite decimal; the
  exponent notation JavaScript switches to from \<open>1e21\<close> on and below \<open>1e-6\<close> is not
  modelled.
\<close>

definition num_text :: "rat \<Rightarrow> jsstring" where
  "num_text r =
     (let a = \<bar>r\<bar>; i = \<lfloor>a\<rfloor>; f = a - of_int i
      in (if r < 0 then [cu CHR ''-''] else []) @ nat_text (nat i) @
         (if f = 0 then [] else cu CHR ''.'' # frac_text (nat (snd (quotient_of f))) f))"

section \<open>\<open>JSON.parse\<close>\<close>

text \<open>
  The JSON grammar of ECMA-404, which \<open>JSON.parse\<close> accepts: first the text is cut into
  tokens, then a stack machine reads the tokens. \<open>None\<close> is the \<open>SyntaxError\<close> that
  \<open>JSON.parse\<close> throws.
\<close>

datatype token =
    LBrace | RBrace | LBrack | RBrack | Colon | Comma
  | TStr jsstring | TNum rat | TTrue | TFalse | TNull

definition json_ws :: "code_unit \<Rightarrow> bool" where
  "json_ws u \<longleftrightarrow> u = 9 \<or> u = 10 \<or> u = 13 \<or> u = 32"

definition hex_val :: "code_unit \<Rightarrow> nat option" where
  "hex_val u =
     (if 48 \<le> u \<and> u \<le> 57 then Some (u - 48)
      else if 97 \<le> u \<and> u \<le> 102 then Some (u - 87)
      else if 65 \<le> u \<and> u \<le> 70 then Some (u - 55)
      else None)"

text \<open>The character a one-letter escape stands for: \<open>\" \\ \/ \b \f \n \r \t\<close>.\<close>

definition escape_val :: "code_unit \<Rightarrow> code_unit option" where
  "escape_val e =
     (if e = 34 then Some 34 else if e = 92 then Some 92 else if e = 47 then Some 47
      else if e = 98 then Some 8 else if e = 102 then Some 12 else if e = 110 then Some 10
      else if e = 114 then Some 13 else if e = 116 then Some 9 else None)"

definition cons_fst :: "'a \<Rightarrow> ('a list \<times> 'b) option \<Rightarrow> ('a list \<times> 'b) option" where
  "cons_fst x r = map_option (\<lambda>(xs, y). (x # xs, y)) r"

text \<open>
  The text of a string literal after its opening quote: the string it denotes and what
  follows the closing quote.
\<close>

fun string_body :: "jsstring \<Rightarrow> (jsstring \<times> jsstring) option" where
  "string_body [] = None"
| "string_body (c # cs) =
     (if c = 34 then Some ([], cs)
      else if c = 92 then
        (case cs of
           [] \<Rightarrow> None
         | e # es \<Rightarrow>
             if e = 117 then
               (case es of
                  h1 # h2 # h3 # h4 # rest \<Rightarrow>
                    (case (hex_val h1, hex_val h2, hex_val h3, hex_val h4) of
                       (Some a, Some b, Some c, Some d) \<Rightarrow>
                         cons_fst (((a * 16 + b) * 16 + c) * 16 + d) (string_body rest)
                     | _ \<Rightarrow> None)
                | _ \<Rightarrow> None)
             else
               (case escape_val e of
                  Some u \<Rightarrow> cons_fst u (string_body es)
                | None \<Rightarrow> None))
      else if c < 32 then None
      else cons_fst c (string_body cs))"

text \<open>
  A number literal at the start of the text: \<open>-? (0 | [1-9][0-9]*) (.[0-9]+)? ([eE][+-]?[0-9]+)?\<close>,
  its value and the rest of the text.
\<close>

definition scale10 :: "rat \<Rightarrow> int \<Rightarrow> rat" where
  "scale10 r e = (if 0 \<le> e then r * 10 ^ nat e else r / 10 ^ nat (- e))"

definition exponent_part :: "jsstring \<Rightarrow> (int \<times> jsstring) option" where
  "exponent_part s =
     (case s of
        [] \<Rightarrow> Some (0, s)
      | e # t \<Rightarrow>
          if e = 101 \<or> e = 69 then
            (let (sign, u) = (case t of
                                [] \<Rightarrow> (1, t)
                              | g # v \<Rightarrow> if g = 43 then (1, v) else if g = 45 then (- 1, v) else (1, t))
             in if takeWhile digit u = [] then None
                else Some (sign * int (digits_val (takeWhile digit u)), dropWhile digit u))
          else Some (0, s))"

definition fraction_part :: "jsstring \<Rightarrow> (rat \<times> jsstring) option" where
  "fraction_part s =
     (case s of
        [] \<Rightarrow> Some (0, s)
      | p # t \<Rightarrow>
          if p = 46 then
            (if takeWhile digit t = [] then None
             else Some (of_nat (digits_val (takeWhile digit t)) / 10 ^ length (takeWhile digit t),
                        dropWhile digit t))
          else Some (0, s))"

definition number_token :: "jsstring \<Rightarrow> (rat \<times> jsstring) option" where
  "number_token s =
     (let (neg, s1) = (case s of [] \<Rightarrow> (False, s) | m # t \<Rightarrow> if m = 45 then (True, t) else (False, s));
          ip = takeWhile digit s1
      in if ip = [] \<or> (1 < length ip \<and> hd ip = 48) then None
         else (case fraction_part (dropWhile digit s1) of
                 None \<Rightarrow> None
               | Some (f, s2) \<Rightarrow>
                   (case exponent_part s2 of
                      None \<Rightarrow> None
                    | Some (e, s3) \<Rightarrow>
                        Some (scale10 ((if neg then - 1 else 1) * (of_nat (digits_val ip) + f)) e, s3))))"

definition cons_opt :: "'a \<Rightarrow> 'a list option \<Rightarrow> 'a list option" where
  "cons_opt x r = map_option ((#) x) r"

function tokens :: "jsstring \<Rightarrow> token list option" where
  "tokens [] = Some []"
| "tokens (c # cs) =
     (if json_ws c then tokens cs
      else if c = 123 then cons_opt LBrace (tokens cs)
      else if c = 125 then cons_opt RBrace (tokens cs)
      else if c = 91 then cons_opt LBrack (tokens cs)
      else if c = 93 then cons_opt RBrack (tokens cs)
      else if c = 58 then cons_opt Colon (tokens cs)
      else if c = 44 then cons_opt Comma (tokens cs)
      else if c = 34 then
        (case string_body cs of
           None \<Rightarrow> None
         | Some (s, rest) \<Rightarrow> cons_opt (TStr s) (tokens rest))
      else if c = 116 then
        (if take 3 cs = str ''rue'' then cons_opt TTrue (tokens (drop 3 cs)) else None)
      else if c = 102 then
        (if take 4 cs = str ''alse'' then cons_opt TFalse (tokens (drop 4 cs)) else None)
      else if c = 110 then
        (if take 3 cs = str ''ull'' then cons_opt TNull (tokens (drop 3 cs)) else None)
      else if c = 45 \<or> digit c then
        (case number_token (c # cs) of
           None \<Rightarrow> None
         | Some (r, rest) \<Rightarrow> cons_opt (TNum r) (tokens rest))
      else None)"
  by pat_completeness auto
termination
proof -
  have body: "length rest \<le> length cs" if "string_body cs = Some (s, rest)" for cs s rest
    using that
  proof (induction cs arbitrary: s rest rule: string_body.induct)
    case 1
    then show ?case by simp
  next
    case (2 c cs)
    then show ?case
      by (fastforce simp: cons_fst_def split: if_splits list.splits option.splits prod.splits)
  qed
  have frac: "length rest \<le> length s" if "fraction_part s = Some (f, rest)" for s f rest
    using that
    by (auto simp: fraction_part_def split: list.splits if_splits
        intro: le_trans [OF length_dropWhile_le])
  have expo: "length rest \<le> length s" if "exponent_part s = Some (e, rest)" for s e rest
    using that
    by (auto simp: exponent_part_def Let_def split: list.splits if_splits prod.splits
        intro: le_trans [OF length_dropWhile_le] le_SucI)
  have num: "length rest < length s" if "number_token s = Some (r, rest)" for s r rest
  proof -
    obtain neg s1 where ns: "(case s of [] \<Rightarrow> (False, s) | m # t \<Rightarrow> if m = 45 then (True, t) else (False, s)) = (neg, s1)"
      by (cases "(case s of [] \<Rightarrow> (False, s) | m # t \<Rightarrow> if m = 45 then (True, t) else (False, s))")
    have s1: "length s1 \<le> length s"
      using ns by (auto split: list.splits if_splits)
    from that ns obtain f s2 e where
      ne: "takeWhile digit s1 \<noteq> []" and
      fr: "fraction_part (dropWhile digit s1) = Some (f, s2)" and
      ex: "exponent_part s2 = Some (e, rest)"
      by (auto simp: number_token_def Let_def split: option.splits if_splits)
    from ne have "length (dropWhile digit s1) < length s1"
      by (cases s1) (auto intro: le_imp_less_Suc [OF length_dropWhile_le] split: if_splits)
    with frac [OF fr] expo [OF ex] s1 show ?thesis by linarith
  qed
  show ?thesis
    by (relation "measure length") (auto dest!: body num simp: less_Suc_eq_le)
qed

text \<open>
  The stack machine. A frame is an array or an object under construction, with the place
  the reader is at: \<open>A0\<close> after \<open>[\<close>, \<open>A1\<close> after an element, \<open>A2\<close> after a comma;
  \<open>O0\<close> after \<open>{\<close>, \<open>O1\<close> after a key, \<open>O2\<close> after its colon, \<open>O3\<close> after a
  property, \<open>O4\<close> after a comma.
\<close>

datatype frame =
    A0
  | A1 "json list"
  | A2 "json list"
  | O0
  | O1 "(jsstring \<times> json) list" jsstring
  | O2 "(jsstring \<times> json) list" jsstring
  | O3 "(jsstring \<times> json) list"
  | O4 "(jsstring \<times> json) list"

datatype pstate = Busy "frame list" | Done json

text \<open>A finished value goes to the place that waits for one.\<close>

fun deliver :: "json \<Rightarrow> frame list \<Rightarrow> pstate option" where
  "deliver v [] = Some (Done v)"
| "deliver v (A0 # st) = Some (Busy (A1 [v] # st))"
| "deliver v (A2 xs # st) = Some (Busy (A1 (xs @ [v]) # st))"
| "deliver v (O2 kvs k # st) = Some (Busy (O3 (put k v kvs) # st))"
| "deliver v _ = None"

fun expects_value :: "frame list \<Rightarrow> bool" where
  "expects_value [] = True"
| "expects_value (A0 # st) = True"
| "expects_value (A2 xs # st) = True"
| "expects_value (O2 kvs k # st) = True"
| "expects_value _ = False"

fun step :: "frame list \<Rightarrow> token \<Rightarrow> pstate option" where
  "step st LBrack = (if expects_value st then Some (Busy (A0 # st)) else None)"
| "step st LBrace = (if expects_value st then Some (Busy (O0 # st)) else None)"
| "step (A0 # st) RBrack = deliver (JArr []) st"
| "step (A1 xs # st) RBrack = deliver (JArr xs) st"
| "step (O0 # st) RBrace = deliver (JObj []) st"
| "step (O3 kvs # st) RBrace = deliver (JObj kvs) st"
| "step (A1 xs # st) Comma = Some (Busy (A2 xs # st))"
| "step (O3 kvs # st) Comma = Some (Busy (O4 kvs # st))"
| "step (O1 kvs k # st) Colon = Some (Busy (O2 kvs k # st))"
| "step (O0 # st) (TStr s) = Some (Busy (O1 [] s # st))"
| "step (O4 kvs # st) (TStr s) = Some (Busy (O1 kvs s # st))"
| "step st (TStr s) = deliver (JStr s) st"
| "step st (TNum r) = deliver (JNum r) st"
| "step st TTrue = deliver (JBool True) st"
| "step st TFalse = deliver (JBool False) st"
| "step st TNull = deliver JNull st"
| "step _ _ = None"

fun run_tokens :: "pstate \<Rightarrow> token list \<Rightarrow> pstate option" where
  "run_tokens p [] = Some p"
| "run_tokens (Done v) (t # ts) = None"
| "run_tokens (Busy st) (t # ts) =
     (case step st t of None \<Rightarrow> None | Some p \<Rightarrow> run_tokens p ts)"

definition JSON_parse :: "jsstring \<Rightarrow> json option" where
  "JSON_parse s =
     (case tokens s of
        None \<Rightarrow> None
      | Some ts \<Rightarrow> (case run_tokens (Busy []) ts of Some (Done v) \<Rightarrow> Some v | _ \<Rightarrow> None))"

section \<open>\<open>JSON.stringify\<close>\<close>

fun join :: "jsstring \<Rightarrow> jsstring list \<Rightarrow> jsstring" where
  "join sep [] = []"
| "join sep [x] = x"
| "join sep (x # xs) = x @ sep @ join sep xs"

definition hex_digit :: "nat \<Rightarrow> code_unit" where
  "hex_digit d = (if d < 10 then 48 + d else 87 + d)"

text \<open>\<open>\uXXXX\<close>\<close>

definition uescape :: "code_unit \<Rightarrow> jsstring" where
  "uescape u =
     [92, 117, hex_digit (u div 4096 mod 16), hex_digit (u div 256 mod 16),
      hex_digit (u div 16 mod 16), hex_digit (u mod 16)]"

definition high_surrogate :: "code_unit \<Rightarrow> bool" where
  "high_surrogate u \<longleftrightarrow> 55296 \<le> u \<and> u \<le> 56319"

definition low_surrogate :: "code_unit \<Rightarrow> bool" where
  "low_surrogate u \<longleftrightarrow> 56320 \<le> u \<and> u \<le> 57343"

text \<open>\<open>QuoteJSONString\<close> without the quotes around it.\<close>

fun quote_body :: "jsstring \<Rightarrow> jsstring" where
  "quote_body [] = []"
| "quote_body (c # cs) =
     (if c = 8 then [92, 98] @ quote_body cs
      else if c = 9 then [92, 116] @ quote_body cs
      else if c = 10 then [92, 110] @ quote_body cs
      else if c = 12 then [92, 102] @ quote_body cs
      else if c = 13 then [92, 114] @ quote_body cs
      else if c = 34 then [92, 34] @ quote_body cs
      else if c = 92 then [92, 92] @ quote_body cs
      else if c < 32 then uescape c @ quote_body cs
      else if high_surrogate c then
        (case cs of
           [] \<Rightarrow> uescape c
         | d # ds \<Rightarrow>
             if low_surrogate d then c # d # quote_body ds else uescape c @ quote_body cs)
      else if low_surrogate c then uescape c @ quote_body cs
      else c # quote_body cs)"

definition quote :: "jsstring \<Rightarrow> jsstring" where
  "quote s = [34] @ quote_body s @ [34]"

fun JSON_stringify :: "json \<Rightarrow> jsstring" where
  "JSON_stringify JNull = str ''null''"
| "JSON_stringify (JBool b) = (if b then str ''true'' else str ''false'')"
| "JSON_stringify (JNum r) = num_text r"
| "JSON_stringify (JStr s) = quote s"
| "JSON_stringify (JArr xs) = str ''['' @ join (str '','') (map JSON_stringify xs) @ str '']''"
| "JSON_stringify (JObj kvs) =
     str ''{'' @
     join (str '','') (map (\<lambda>kv. quote (fst kv) @ str '':'' @ JSON_stringify (snd kv)) kvs) @
     str ''}''"

section \<open>Values that print and parse back\<close>

text \<open>
  The values for which \<open>JSON.parse(JSON.stringify(v))\<close> is shown to be \<open>v\<close>: every
  number is a finite decimal, as every double is, and the keys of every object are
  distinct, as they are in a JavaScript object.
\<close>

definition decimal :: "rat \<Rightarrow> bool" where
  "decimal r \<longleftrightarrow> (\<exists>k. r * 10 ^ k \<in> \<int>)"

fun plain :: "json \<Rightarrow> bool" where
  "plain (JNum r) = decimal r"
| "plain (JArr xs) = (\<forall>x\<in>set xs. plain x)"
| "plain (JObj kvs) = (distinct (map fst kvs) \<and> (\<forall>kv\<in>set kvs. plain (snd kv)))"
| "plain _ = True"

text \<open>The tokens of a value as \<open>JSON.stringify\<close> prints it.\<close>

fun commas :: "token list list \<Rightarrow> token list" where
  "commas [] = []"
| "commas [x] = x"
| "commas (x # xs) = x @ Comma # commas xs"

fun toks :: "json \<Rightarrow> token list" where
  "toks JNull = [TNull]"
| "toks (JBool b) = [if b then TTrue else TFalse]"
| "toks (JNum r) = [TNum r]"
| "toks (JStr s) = [TStr s]"
| "toks (JArr xs) = LBrack # commas (map toks xs) @ [RBrack]"
| "toks (JObj kvs) =
     LBrace # commas (map (\<lambda>kv. TStr (fst kv) # Colon # toks (snd kv)) kvs) @ [RBrace]"

text \<open>
  What may follow a printed number, and a printed value, in the output of
  \<open>JSON.stringify\<close>.
\<close>

definition number_end :: "jsstring \<Rightarrow> bool" where
  "number_end rest \<longleftrightarrow> rest = [] \<or> (\<not> digit (hd rest) \<and> hd rest \<notin> {46, 101, 69})"

definition value_end :: "jsstring \<Rightarrow> bool" where
  "value_end rest \<longleftrightarrow> rest = [] \<or> hd rest \<in> {44, 93, 125}"

definition prepend :: "token list \<Rightarrow> token list option \<Rightarrow> token list option" where
  "prepend ts r = map_option (\<lambda>more. ts @ more) r"

text \<open>
  What reading a value does, as a property of that value: from any place that expects a
  value, its tokens lead to the state in which the value has been delivered.
\<close>

definition reads :: "json \<Rightarrow> bool" where
  "reads v \<longleftrightarrow>
     (\<forall>st p. expects_value st \<longrightarrow> deliver v st = Some p \<longrightarrow>
        run_tokens (Busy st) (toks v) = Some p)"

section \<open>Effects\<close>

text \<open>
  A call of the program leaves a trace: the prompts sent to the external completion
  service and the lines written to the console. The service is outside the program: its
  answer to the \<open>n\<close>-th prompt is either an exception (\<open>generateContent\<close> of the SDK
  rejects, or reading the response throws) or the response text.
\<close>

datatype exn = ServiceError | SyntaxError | TypeError

datatype event = Call jsstring | ConsoleLog | ConsoleWarn | ConsoleError

type_synonym trace = "event list"

type_synonym service = "nat \<Rightarrow> jsstring \<Rightarrow> exn + jsstring"

type_synonym 'a comp = "trace \<Rightarrow> (exn + 'a) \<times> trace"

definition return :: "'a \<Rightarrow> 'a comp" where
  "return x tr = (Inr x, tr)"

definition throw :: "exn \<Rightarrow> 'a comp" where
  "throw e tr = (Inl e, tr)"

definition and_then :: "'a comp \<Rightarrow> ('a \<Rightarrow> 'b comp) \<Rightarrow> 'b comp" where
  "and_then m f tr = (case m tr of (Inl e, tr') \<Rightarrow> (Inl e, tr') | (Inr x, tr') \<Rightarrow> f x tr')"

definition try_catch :: "'a comp \<Rightarrow> (exn \<Rightarrow> 'a comp) \<Rightarrow> 'a comp" where
  "try_catch m h tr = (case m tr of (Inl e, tr') \<Rightarrow> h e tr' | (Inr x, tr') \<Rightarrow> (Inr x, tr'))"

definition console :: "event \<Rightarrow> unit comp" where
  "console ev tr = (Inr (), tr @ [ev])"

fun is_call :: "event \<Rightarrow> bool" where
  "is_call (Call _) = True"
| "is_call _ = False"

definition service_calls :: "trace \<Rightarrow> nat" where
  "service_calls tr = length (filter is_call tr)"

text \<open>
  \<open>this.model.generateContent(prompt)\<close>, then \<open>result.response\<close> and \<open>response.text()\<close>.
\<close>

definition model_generateContent :: "service \<Rightarrow> jsstring \<Rightarrow> jsstring comp" where
  "model_generateContent model prompt tr = (model (service_calls tr) prompt, tr @ [Call prompt])"

definition parse_json :: "jsstring \<Rightarrow> json comp" where
  "parse_json s = (case JSON_parse s of None \<Rightarrow> throw SyntaxError | Some v \<Rightarrow> return v)"

section \<open>\<open>GeminiService.generateContent\<close>\<close>

definition prompt_of :: "jsstring \<Rightarrow> jsstring \<Rightarrow> jsstring" where
  "prompt_of systemPrompt userInput =
     systemPrompt @ nl @ nl @ str ''User Input: '' @ userInput @ nl @ nl @
     str ''Please provide a detailed JSON response.''"

definition success_data :: "jsstring \<Rightarrow> json" where
  "success_data text = JObj [(str ''success'', JBool True), (str ''data'', JStr text)]"

definition unavailable :: json where
  "unavailable =
     JObj [(str ''success'', JBool False),
           (str ''error'', JStr (str ''AI service temporarily unavailable''))]"

definition generateContent :: "service \<Rightarrow> jsstring \<Rightarrow> jsstring \<Rightarrow> json option \<Rightarrow> json comp" where
  "generateContent model systemPrompt userInput fallbackData =
     try_catch
       (and_then (model_generateContent model (prompt_of systemPrompt userInput)) (\<lambda>text.
          try_catch
            (case string_match json_regex text of
               Some jsonMatch \<Rightarrow> parse_json (fst jsonMatch)
             | None \<Rightarrow> return (or_else fallbackData (success_data text)))
            (\<lambda>parseError.
               and_then (console ConsoleWarn) (\<lambda>_.
                 return (or_else fallbackData (success_data text))))))
       (\<lambda>error.
          and_then (console ConsoleError) (\<lambda>_.
            return (or_else fallbackData unavailable)))"

section \<open>\<open>extractFoodItems\<close>\<close>

text \<open>
  \<open>match[i]\<close> for a capture group \<open>i \<ge> 1\<close> of the pattern, and \<open>parseInt\<close> of a string
  that starts with decimal digits: every text captured by \<open>(\d+)\<close> is such a string.
  The quantities are natural numbers; JavaScript's doubles agree with them up to \<open>2^53\<close>.
\<close>

definition group :: "jsstring \<times> jsstring list \<Rightarrow> nat \<Rightarrow> jsstring" where
  "group m i = snd m ! (i - 1)"

definition parseInt :: "jsstring \<Rightarrow> nat" where
  "parseInt s = digits_val (takeWhile digit s)"

record pattern =
  regex :: regex
  name :: jsstring
  unit :: jsstring
  price :: nat

text \<open>\<open>(\d+)\s*(?:\<dots>unit\<dots>).*?(?:\<dots>item\<dots>)\<close>\<close>

definition quantity_of :: "regex \<Rightarrow> regex \<Rightarrow> regex" where
  "quantity_of u item =
     Seq (Group (Plus digit)) (Seq (Star space) (Seq u (Seq (LazyStar dot) item)))"

text \<open>\<open>(?:kg|kilograms?)\<close> and \<open>(?:l|liters?)\<close>, with the \<open>i\<close> flag\<close>

definition kg :: regex where
  "kg = Alt (lit_i ''kg'') (Seq (lit_i ''kilogram'') (Opt (Atom (chr_i CHR ''s''))))"

definition liters :: regex where
  "liters = Alt (lit_i ''l'') (Seq (lit_i ''liter'') (Opt (Atom (chr_i CHR ''s''))))"

definition tomatoes :: pattern where
  "tomatoes =
     \<lparr>regex = quantity_of kg (Alt (lit_i ''tomato'') (lit_i ''tomatoes'')),
      name = str ''Tomatoes'', unit = str ''kg'', price = 15\<rparr>"

definition milk :: pattern where
  "milk =
     \<lparr>regex = quantity_of liters (lit_i ''milk''),
      name = str ''Milk'', unit = str ''L'', price = 40\<rparr>"

definition potatoes :: pattern where
  "potatoes =
     \<lparr>regex = quantity_of kg (Alt (lit_i ''potato'') (lit_i ''potatoes'')),
      name = str ''Potatoes'', unit = str ''kg'', price = 20\<rparr>"

definition rice :: pattern where
  "rice =
     \<lparr>regex = quantity_of kg (lit_i ''rice''),
      name = str ''Rice'', unit = str ''kg'', price = 25\<rparr>"

definition patterns :: "pattern list" where
  "patterns = [tomatoes, milk, potatoes, rice]"

record food =
  items :: "jsstring list"
  totalQuantity :: nat
  totalValue :: nat

text \<open>The body of \<open>patterns.forEach\<close>, with the three variables it updates.\<close>

definition forEach_body :: "jsstring \<Rightarrow> food \<Rightarrow> pattern \<Rightarrow> food" where
  "forEach_body report acc pattern =
     (case string_match (regex pattern) report of
        None \<Rightarrow> acc
      | Some match \<Rightarrow>
          (let quantity = parseInt (group match 1)
           in \<lparr>items = items acc @ [name pattern @ str '': '' @ nat_text quantity @ unit pattern],
               totalQuantity = totalQuantity acc + quantity,
               totalValue = totalValue acc + quantity * price pattern\<rparr>))"

definition extractFoodItems :: "jsstring \<Rightarrow> food" where
  "extractFoodItems report =
     foldl (forEach_body report) \<lparr>items = [], totalQuantity = 0, totalValue = 0\<rparr> patterns"

text \<open>\<open>Math.floor(totalQuantity / 3) || 50\<close>\<close>

definition estimatedPeople :: "nat \<Rightarrow> nat" where
  "estimatedPeople q = (if q div 3 = 0 then 50 else q div 3)"

text \<open>\<open>n || d\<close> on numbers\<close>

definition or_default :: "nat \<Rightarrow> nat \<Rightarrow> nat" where
  "or_default n d = (if n = 0 then d else n)"

text \<open>The \<open>estimated_impact\<close> object of the fallback plan.\<close>

definition estimated_impact_of :: "food \<Rightarrow> json" where
  "estimated_impact_of f =
     JObj [(str ''people_served'', JNum (of_nat (estimatedPeople (totalQuantity f)))),
           (str ''food_saved_kg'', JNum (of_nat (or_default (totalQuantity f) 200))),
           (str ''economic_value_rupees'', JNum (of_nat (or_default (totalValue f) 5000))),
           (str ''emissions_saved_kg'', JNum (of_nat (or_default (totalQuantity f) 200) * 2.5)),
           (str ''water_saved_liters'', JNum (of_nat (or_default (totalQuantity f) 200) * 1000))]"

section \<open>The gateway methods\<close>

text \<open>
  \<open>ToString\<close> of a JSON value, as a template literal applies it. An object is printed by
  its \<open>toString\<close> method, which is \<open>Object.prototype.toString\<close> unless the object has a
  property \<open>toString\<close> of its own. In a JSON value such a property is never a function;
  then \<open>valueOf\<close> (its own and not a function, or the inherited one, which returns the
  object) gives no primitive value either, and the conversion throws a \<open>TypeError\<close>. An
  array prints its elements, \<open>null\<close> as the empty string, separated by commas, and throws
  when one of them does.
\<close>

fun all_of :: "(exn + 'a) list \<Rightarrow> exn + 'a list" where
  "all_of [] = Inr []"
| "all_of (Inl e # ps) = Inl e"
| "all_of (Inr x # ps) = (case all_of ps of Inl e \<Rightarrow> Inl e | Inr xs \<Rightarrow> Inr (x # xs))"

fun to_string :: "json \<Rightarrow> exn + jsstring" where
  "to_string JNull = Inr (str ''null'')"
| "to_string (JBool b) = Inr (if b then str ''true'' else str ''false'')"
| "to_string (JNum r) = Inr (num_text r)"
| "to_string (JStr s) = Inr s"
| "to_string (JArr xs) =
     (case all_of (map (\<lambda>x. if x = JNull then Inr [] else to_string x) xs) of
        Inl e \<Rightarrow> Inl e
      | Inr parts \<Rightarrow> Inr (join (str '','') parts))"
| "to_string (JObj kvs) =
     (if map_of kvs (str ''toString'') = None then Inr (str ''[object Object]'')
      else Inl TypeError)"

text \<open>
  A template literal: its parts are the characters between the substitutions and the
  substitutions \<open>${e}\<close>, converted to strings from left to right; the first conversion
  that throws ends the evaluation.
\<close>

definition chars :: "jsstring \<Rightarrow> exn + jsstring" where
  "chars s = Inr s"

definition template :: "(exn + jsstring) list \<Rightarrow> exn + jsstring" where
  "template parts = (case all_of parts of Inl e \<Rightarrow> Inl e | Inr ss \<Rightarrow> Inr (concat ss))"

text \<open>A value or an exception computed without the trace, inside a method.\<close>

definition of_result :: "exn + 'a \<Rightarrow> 'a comp" where
  "of_result r tr = (r, tr)"


subsection \<open>Hospital management\<close>




definition getDoctors_systemPrompt :: jsstring where
  "getDoctors_systemPrompt =
     str ''You are a doctor management system. Generate realistic doctor '' @ str ''data.'' @
     nl @ str ''    Return JSON with an array of doctors, each having: id, name, '' @
     str ''specialty, hospital_id, years_experience, availability_status, '' @
     str ''consultations_today, rating.''"

definition getDoctors_fallbackData :: json where
  "getDoctors_fallbackData =
     JObj
      [(str ''doctors'', JArr
         [JObj
           [(str ''id'', JNum 1),
            (str ''name'', JStr (str ''Dr. Rajesh Kumar'')),
            (str ''specialty'', JStr (str ''Cardiology'')),
            (str ''hospital_id'', JNum 1),
            (str ''years_experience'', JNum 15),
            (str ''availability_status'', JStr (str ''available'')),
            (str ''consultations_today'', JNum 12),
            (str ''rating'', JNum 4.6)],
          JObj
           [(str ''id'', JNum 2),
            (str ''name'', JStr (str ''Dr. Priya Sharma'')),
            (str ''specialty'', JStr (str ''Neurology'')),
            (str ''hospital_id'', JNum 1),
            (str ''years_experience'', JNum 18),
            (str ''availability_status'', JStr (str ''busy'')),
            (str ''consultations_today'', JNum 8),
            (str ''rating'', JNum 4.8)],
          JObj
           [(str ''id'', JNum 3),
            (str ''name'', JStr (str ''Dr. Suresh Reddy'')),
            (str ''specialty'', JStr (str ''Emergency Medicine'')),
            (str ''hospital_id'', JNum 2),
            (str ''years_experience'', JNum 10),
            (str ''availability_status'', JStr (str ''available'')),
            (str ''consultations_today'', JNum 15),
            (str ''rating'', JNum 4.3)]])]"

definition getDoctors :: "service \<Rightarrow> json comp" where
  "getDoctors model =
     generateContent model getDoctors_systemPrompt (str ''List doctors'')
       (Some getDoctors_fallbackData)"




definition findHospitalIntelligent_systemPrompt :: jsstring where
  "findHospitalIntelligent_systemPrompt =
     str ''You are an intelligent hospital recommendation system. Based '' @
     str ''on patient condition, location, and requirements, recommend '' @
     str ''the best hospital.'' @ nl @
     str ''    Analyze: patient condition, severity, location, insurance, '' @
     str ''specialization needed.'' @ nl @
     str ''    Return JSON with: recommended_hospital (object with hospital '' @
     str ''details), reasoning (string), alternatives (array of other options), '' @
     str ''estimated_time, cost_estimate.''"

definition findHospitalIntelligent_fallbackData :: json where
  "findHospitalIntelligent_fallbackData =
     JObj
      [(str ''recommended_hospital'', JObj
         [(str ''id'', JNum 1),
          (str ''name'', JStr (str ''Apollo Hospital Chennai'')),
          (str ''location'', JStr (str ''Greams Road, Chennai'')),
          (str ''specialties'', JArr [JStr (str ''Cardiology''), JStr (str ''Emergency'')]),
          (str ''available_beds'', JNum 45),
          (str ''estimated_time'', JStr (str ''15 minutes'')),
          (str ''rating'', JNum 4.5)]),
       (str ''reasoning'', JStr (str ''Apollo Hospital is recommended due to its excellent cardiology '' @
              str ''department and proximity to your location. They have emergency '' @
              str ''services available and experienced specialists on duty.'')),
       (str ''alternatives'', JArr
         [JObj
           [(str ''name'', JStr (str ''Fortis Malar Hospital'')),
            (str ''distance'', JStr (str ''8 km'')),
            (str ''specialties'', JArr [JStr (str ''Emergency''), JStr (str ''General Medicine'')])]]),
       (str ''cost_estimate'', JStr ([8377] @ str ''15,000 - '' @ [8377] @ str ''25,000'')),
       (str ''emergency_contact'', JStr (str ''+91-44-2829-3333''))]"


subsection \<open>Dashboard analytics\<close>

definition getDashboardStats_systemPrompt :: jsstring where
  "getDashboardStats_systemPrompt =
     str ''Generate hospital dashboard statistics including total hospitals, '' @
     str ''doctors, patients, emergencies today, average waiting time.'' @ nl @
     str ''    Return JSON with comprehensive stats.''"

definition getDashboardStats_fallbackData :: json where
  "getDashboardStats_fallbackData =
     JObj
      [(str ''total_hospitals'', JNum 25),
       (str ''total_doctors'', JNum 450),
       (str ''total_patients'', JNum 1200),
       (str ''emergencies_today'', JNum 35),
       (str ''average_waiting_time'', JNum 18),
       (str ''bed_occupancy_rate'', JNum 78),
       (str ''critical_patients'', JNum 42),
       (str ''ambulances_active'', JNum 12)]"

definition getDashboardStats :: "service \<Rightarrow> json comp" where
  "getDashboardStats model =
     generateContent model getDashboardStats_systemPrompt (str ''Generate hospital dashboard stats'')
       (Some getDashboardStats_fallbackData)"







subsection \<open>Shelter allocation\<close>

definition allocateShelter_systemPrompt :: jsstring where
  "allocateShelter_systemPrompt =
     str ''You are a smart shelter allocation system using AI. Analyze '' @
     str ''applicant data and recommend suitable shelter.'' @ nl @
     str ''    Consider: family_size, income, location_preference, special_needs, '' @
     str ''urgency_score.'' @ nl @
     str ''    Return JSON with: allocated_shelter (object), allocation_score, '' @
     str ''reasoning, wait_time, required_documents.''"

definition allocateShelter_fallbackData :: json where
  "allocateShelter_fallbackData =
     JObj
      [(str ''allocated_shelter'', JObj
         [(str ''shelter_id'', JStr (str ''SH001'')),
          (str ''name'', JStr (str ''New Hope Community Shelter'')),
          (str ''location'', JStr (str ''Anna Nagar, Chennai'')),
          (str ''capacity'', JNum 50),
          (str ''available_slots'', JNum 5),
          (str ''facilities'', JArr
            [JStr (str ''Kitchen''),
             JStr (str ''School''),
             JStr (str ''Medical Care'')]),
          (str ''monthly_rent'', JNum 2500)]),
       (str ''allocation_score'', JNum 0.87),
       (str ''reasoning'', JStr (str ''High compatibility based on family size, location preference, '' @
              str ''and available facilities. The shelter has good schools nearby '' @
              str ''for children and medical facilities.'')),
       (str ''wait_time'', JStr (str ''2-3 days'')),
       (str ''required_documents'', JArr
         [JStr (str ''Aadhar Card''),
          JStr (str ''Income Certificate''),
          JStr (str ''Family Photos''),
          JStr (str ''Bank Statement'')])]"


definition getShelterStats_systemPrompt :: jsstring where
  "getShelterStats_systemPrompt =
     str ''Generate shelter allocation system statistics.'' @ nl @
     str ''    Return JSON with: total_shelters, total_capacity, occupied_slots, '' @
     str ''waiting_list, allocation_success_rate, average_wait_time.''"

definition getShelterStats_fallbackData :: json where
  "getShelterStats_fallbackData =
     JObj
      [(str ''total_shelters'', JNum 15),
       (str ''total_capacity'', JNum 750),
       (str ''occupied_slots'', JNum 580),
       (str ''waiting_list'', JNum 95),
       (str ''allocation_success_rate'', JNum 78),
       (str ''average_wait_time'', JNum 4.2)]"

definition getShelterStats :: "service \<Rightarrow> json comp" where
  "getShelterStats model =
     generateContent model getShelterStats_systemPrompt (str ''Generate shelter statistics'')
       (Some getShelterStats_fallbackData)"

subsection \<open>\<open>findNearbyHospitals\<close>\<close>










subsection \<open>Waste optimizer\<close>

text \<open>
  The fallback plan of \<open>generateWastePlan\<close>, built from \<open>priority_focus\<close> (which may be
  \<open>undefined\<close>), the result of \<open>extractFoodItems\<close> and the clock's
  \<open>new Date().toLocaleString()\<close>.
\<close>

definition generateWastePlan_systemPrompt :: jsstring where
  "generateWastePlan_systemPrompt =
     str ''You are HungerGuard AI, a food waste optimizer. Create an optimal '' @
     str ''food distribution plan.'' @ nl @
     str ''    Consider: food_surplus_report, priority_focus (hunger_relief/farmer_support/envi'' @
     str ''ronment/all).'' @ nl @
     str ''    Return JSON with: allocation_plan (detailed string), human_summary '' @
     str ''(string), estimated_impact (object with people_served, food_saved_kg, '' @
     str ''economic_value_rupees, emissions_saved_kg).''"

definition item_line :: "jsstring \<Rightarrow> jsstring" where
  "item_line item = str ''   '' @ [8226] @ str '' '' @ item"

definition identified_surplus :: "jsstring list \<Rightarrow> jsstring" where
  "identified_surplus lines =
     (if 0 < length lines then join nl (map item_line lines)
      else str ''   '' @ [8226] @ str '' Mixed Food Items: 200kg'')"

definition hunger_relief_strategy :: jsstring where
  "hunger_relief_strategy =
     str ''1. '' @ [55357, 57000] @ str '' URGENT HUNGER RELIEF (70% of surplus):'' @ nl @
     str ''   '' @ [8226] @ str '' Target: Orphanages, emergency shelters, food banks'' @ nl @
     str ''   '' @ [8226] @ str '' Priority: Highly perishable items first'' @ nl @
     str ''   '' @ [8226] @ str '' Timeline: Within 6 hours'' @ nl @
     nl @ str ''2. '' @ [55356, 57304, 65039] @ str '' COMMUNITY SUPPORT (30% of surplus):'' @
     nl @ str ''   '' @ [8226] @ str '' Target: Community centers, schools, elderly care'' @
     nl @ str ''   '' @ [8226] @ str '' Timeline: Within 24 hours''"

definition balanced_strategy :: jsstring where
  "balanced_strategy =
     str ''1. '' @ [55357, 56580] @ str '' BALANCED MULTI-OBJECTIVE APPROACH:'' @ nl @
     str ''   '' @ [8226] @ str '' 40% - Urgent hunger relief (orphanages, shelters)'' @ nl @
     str ''   '' @ [8226] @ str '' 30% - Farmer economic support'' @ nl @
     str ''   '' @ [8226] @ str '' 20% - Community centers and schools'' @ nl @
     str ''   '' @ [8226] @ str '' 10% - Environmental sustainability programs''"

definition allocation_plan_text :: "json option \<Rightarrow> food \<Rightarrow> jsstring \<Rightarrow> exn + jsstring" where
  "allocation_plan_text priority_focus f date =
     template
      [chars
        ([55358, 56598] @ str '' HungerGuard AI Food Distribution Plan'' @ nl @
         str ''=================================================='' @ nl @
         str ''Priority Focus: ''),
       to_string (or_else priority_focus (JStr (str ''Balanced Approach''))),
       chars
        (nl @ str ''Report Analysis Date: '' @ date @ nl @
         nl @ [55357, 56550] @ str '' IDENTIFIED FOOD SURPLUS:'' @ nl @
         identified_surplus (items f) @ nl @
         nl @ [55356, 57263] @ str '' ALLOCATION STRATEGY:'' @ nl @
         (if priority_focus = Some (JStr (str ''hunger_relief'')) then hunger_relief_strategy
         else balanced_strategy) @
         nl @ nl @
         [55357, 56987] @ str '' LOGISTICS & DISTRIBUTION:'' @ nl @
         str ''   '' @ [8226] @ str '' Refrigerated vehicles for perishable items'' @ nl @
         str ''   '' @ [8226] @ str '' Standard trucks for non-perishable items'' @ nl @
         str ''   '' @ [8226] @ str '' Route optimization to minimize travel time'' @ nl @
         str ''   '' @ [8226] @ str '' Real-time tracking and delivery confirmations'' @ nl @
         nl @ [55357, 56522] @ str '' ESTIMATED IMPACT:'' @ nl @
         str ''   '' @ [8226] @ str '' People served: ~'' @
         nat_text (estimatedPeople (totalQuantity f)) @ str '' individuals'' @ nl @
         str ''   '' @ [8226] @ str '' Food waste prevented: '' @
         nat_text (or_default (totalQuantity f) 200) @ str ''kg'' @ nl @
         str ''   '' @ [8226] @ str '' Economic value: '' @ [8377] @
         nat_text (or_default (totalValue f) 5000) @ nl @
         str ''   '' @ [8226] @ str '' CO2 emissions avoided: '' @
         num_text (of_nat (or_default (totalQuantity f) 200) * 2.5) @ str ''kg'' @ nl @
         str ''   '' @ [8226] @ str '' Water saved: ~'' @
         nat_text (or_default (totalQuantity f) 200 * 1000) @ str '' liters'')]"

definition human_summary_text :: "json option \<Rightarrow> food \<Rightarrow> exn + jsstring" where
  "human_summary_text priority_focus f =
     template
      [chars
        (str ''Smart allocation plan created for '' @ nat_text (or_default (totalQuantity f) 200) @
         str ''kg food surplus, targeting '' @ nat_text (estimatedPeople (totalQuantity f)) @
         str '' people with '' @ [8377] @ nat_text (or_default (totalValue f) 5000) @
         str '' economic impact. Prioritizes ''),
       to_string (or_else priority_focus (JStr (str ''balanced approach''))),
       chars (str '' while ensuring efficient distribution and minimal waste.'')]"

definition generateWastePlan_fallbackData ::
  "json option \<Rightarrow> food \<Rightarrow> jsstring \<Rightarrow> exn + json" where
  "generateWastePlan_fallbackData priority_focus f date =
     (case allocation_plan_text priority_focus f date of
        Inl e \<Rightarrow> Inl e
      | Inr allocation_plan \<Rightarrow>
          (case human_summary_text priority_focus f of
             Inl e \<Rightarrow> Inl e
           | Inr human_summary \<Rightarrow>
               Inr (JObj [(str ''allocation_plan'', JStr allocation_plan),
                          (str ''human_summary'', JStr human_summary),
                          (str ''estimated_impact'', estimated_impact_of f)])))"

text \<open>
  \<open>raw_report.match\<close> throws a \<open>TypeError\<close> unless \<open>planData\<close> is an object whose
  \<open>raw_report\<close> is a string, and so does the template of the fallback plan when
  \<open>priority_focus\<close> has no conversion to a string; both happen before the call, and
  outside the \<open>try\<close>, of \<open>generateContent\<close>.
\<close>

definition generateWastePlan :: "service \<Rightarrow> json \<Rightarrow> jsstring \<Rightarrow> json comp" where
  "generateWastePlan model planData date =
     (case get planData (str ''raw_report'') of
        Some (JStr raw_report) \<Rightarrow>
          and_then
            (of_result (generateWastePlan_fallbackData (get planData (str ''priority_focus''))
               (extractFoodItems raw_report) date))
            (\<lambda>fallbackData.
               generateContent model generateWastePlan_systemPrompt (JSON_stringify planData)
                 (Some fallbackData))
      | _ \<Rightarrow> throw TypeError)"










section \<open>The presentation component \<open>SmartShelterAllocator\<close>\<close>

record impact =
  people_served :: nat
  beds_allocated :: nat
  economic_value_rupees :: nat
  emissions_saved_kg :: nat

record shelterPlan =
  allocation_plan :: jsstring
  human_summary :: jsstring
  estimated_impact :: impact

definition staticShelterPlan :: shelterPlan where
  "staticShelterPlan =
     \<lparr>allocation_plan = str ''Shelter beds allocated: 50 to Center A, 30 to Center B.'',
      human_summary = str ''Shelter allocation completed.'',
      estimated_impact =
        \<lparr>people_served = 80, beds_allocated = 80, economic_value_rupees = 12000,
         emissions_saved_kg = 20\<rparr>\<rparr>"

text \<open>
  The component's state is \<open>generatedShelterPlan\<close>, initially \<open>null\<close>. The click handler
  maps the state before the click to the state after it.
\<close>

definition handleGenerateShelterPlan :: "shelterPlan option \<Rightarrow> shelterPlan option" where
  "handleGenerateShelterPlan generatedShelterPlan = Some staticShelterPlan"

text \<open>The texts the component renders, in document order, the button's label first.\<close>

definition SmartShelterAllocator :: "shelterPlan option \<Rightarrow> jsstring list" where
  "SmartShelterAllocator generatedShelterPlan =
     str ''Generate Shelter Plan'' #
     (case generatedShelterPlan of
        None \<Rightarrow> []
      | Some plan \<Rightarrow>
          [str ''Generated Shelter Plan'',
           allocation_plan plan,
           human_summary plan,
           str ''Estimated Impact'',
           str ''People Served: '' @ nat_text (people_served (estimated_impact plan)),
           str ''Beds Allocated: '' @ nat_text (beds_allocated (estimated_impact plan)),
           str ''Economic Value (Rupees): '' @
             nat_text (economic_value_rupees (estimated_impact plan)),
           str ''Emissions Saved (kg): '' @ nat_text (emissions_saved_kg (estimated_impact plan))])"

section \<open>The specification's notions\<close>

text \<open>
  The substring from the first \<open>{\<close> of a text to its last \<open>}\<close>, if the text has a
  \<open>}\<close> after its first \<open>{\<close>.
\<close>

definition first_to_last_brace :: "jsstring \<Rightarrow> jsstring option" where
  "first_to_last_brace s =
     (let from_open = dropWhile (\<lambda>u. u \<noteq> cu CHR ''{'') s
      in if cu CHR ''}'' \<in> set from_open
         then Some (rev (dropWhile (\<lambda>u. u \<noteq> cu CHR ''}'') (rev from_open)))
         else None)"

text \<open>
  The well-formed JSON objects a text contains: its substrings from a \<open>{\<close> to a
  \<open>}\<close> that \<open>JSON.parse\<close> accepts.
\<close>

definition brace_spans :: "jsstring \<Rightarrow> jsstring list" where
  "brace_spans s =
     concat (map (\<lambda>i. if s ! i = 123
                        then map (\<lambda>j. take (Suc j - i) (drop i s))
                               (filter (\<lambda>j. s ! j = 125) [i..<length s])
                        else [])
               [0..<length s])"

definition well_formed_objects :: "jsstring \<Rightarrow> jsstring list" where
  "well_formed_objects s = filter (\<lambda>t. JSON_parse t \<noteq> None) (brace_spans s)"

text \<open>
  The keys a system prompt documents: the names that its sentence
  \<open>Return JSON with: k1 (\<dots>), k2, \<dots>.\<close> lists, separated by the commas outside
  parentheses.
\<close>

fun after :: "jsstring \<Rightarrow> jsstring \<Rightarrow> jsstring option" where
  "after marker [] = (if marker = [] then Some [] else None)"
| "after marker (c # cs) =
     (if take (length marker) (c # cs) = marker then Some (drop (length marker) (c # cs))
      else after marker cs)"

fun entries :: "nat \<Rightarrow> jsstring \<Rightarrow> jsstring \<Rightarrow> jsstring list" where
  "entries d cur [] = [cur]"
| "entries d cur (c # cs) =
     (if c = cu CHR ''('' then entries (Suc d) (cur @ [c]) cs
      else if c = cu CHR '')'' then entries (d - 1) (cur @ [c]) cs
      else if d = 0 \<and> c = cu CHR '','' then cur # entries 0 [] cs
      else if d = 0 \<and> c = cu CHR ''.'' then [cur]
      else entries d (cur @ [c]) cs)"

definition word_char :: "code_unit \<Rightarrow> bool" where
  "word_char u \<longleftrightarrow> (97 \<le> u \<and> u \<le> 122) \<or> (65 \<le> u \<and> u \<le> 90) \<or> digit u \<or> u = cu CHR ''_''"

definition documented_keys :: "jsstring \<Rightarrow> jsstring list" where
  "documented_keys prompt =
     (case after (str ''Return JSON with: '') prompt of
        None \<Rightarrow> []
      | Some listing \<Rightarrow>
          map (\<lambda>e. takeWhile word_char (dropWhile (\<lambda>u. u = 32) e)) (entries 0 [] listing))"

fun is_object :: "json \<Rightarrow> bool" where
  "is_object (JObj kvs) = True"
| "is_object _ = False"

text \<open>A pattern without a capture group.\<close>

fun group_free :: "regex \<Rightarrow> bool" where
  "group_free (Group r) = False"
| "group_free (Seq r1 r2) = (group_free r1 \<and> group_free r2)"
| "group_free (Alt r1 r2) = (group_free r1 \<and> group_free r2)"
| "group_free _ = True"

text \<open>
  The quantity of the leftmost match of a food pattern in a report, if the pattern
  matches at all.
\<close>

definition first_quantity :: "pattern \<Rightarrow> jsstring \<Rightarrow> nat option" where
  "first_quantity p report =
     map_option (\<lambda>m. parseInt (group m 1)) (string_match (regex p) report)"

text \<open>The line that a pattern adds to \<open>items\<close>, if it matches.\<close>

definition entry :: "pattern \<Rightarrow> jsstring \<Rightarrow> jsstring list" where
  "entry p report =
     (case first_quantity p report of
        None \<Rightarrow> []
      | Some q \<Rightarrow> [name p @ str '': '' @ nat_text q @ unit p])"

text \<open>
  The values \<open>v\<close> for which \<open>${v || 'default'}\<close> evaluates: \<open>undefined\<close>, the falsy values,
  and the values that have a conversion to a string.
\<close>

definition converts :: "json option \<Rightarrow> bool" where
  "converts v = (case to_string (or_else v (JStr [])) of Inl e \<Rightarrow> False | Inr s \<Rightarrow> True)"

section \<open>Services for the examples\<close>

text \<open>
  A service whose call throws, one that answers in prose, one whose braces hold no JSON,
  one that wraps a JSON object in prose, one that prints an object with
  \<open>JSON.stringify\<close>, one whose prose has braces of its own, and one whose JSON object has
  a field that has no conversion to a string.
\<close>

definition failing_service :: service where
  "failing_service n prompt = Inl ServiceError"

definition prose_service :: service where
  "prose_service n prompt = Inr (str ''I cannot help with that.'')"

definition malformed_service :: service where
  "malformed_service n prompt = Inr (str ''Here it is: {doctors: none}'')"

definition wrapping_service :: service where
  "wrapping_service n prompt = Inr (str ''Sure! {\"total_shelters\": 15} Done.'')"

definition printing_service :: service where
  "printing_service n prompt =
     Inr (str ''Here you are: '' @
          JSON_stringify
            (JObj [(str ''total_hospitals'', JNum 30), (str ''rating'', JNum 4.5),
                   (str ''names'', JArr [JStr (str ''Apollo {Greams Road}''), JNull])]) @
          str '' Anything else?'')"

definition braces_service :: service where
  "braces_service n prompt = Inr (str ''Plan {draft}: {\"total_shelters\": 15}'')"

definition unprintable_service :: service where
  "unprintable_service n prompt = Inr (str ''{\"area_name\": {\"toString\": 1}}'')"

section \<open>Evaluation\<close>

text \<open>The definitions a concrete example unfolds.\<close>

lemmas comp_defs = return_def throw_def and_then_def try_catch_def console_def
  model_generateContent_def parse_json_def

lemmas class_defs = digit_def space_def dot_def space_or_not_def chr_def chr_i_def upper_def
  cu_def str_def Plus_def Opt_def

lemmas parse_defs = json_ws_def hex_val_def escape_val_def cons_fst_def cons_opt_def
  scale10_def exponent_part_def fraction_part_def number_token_def digits_val_def
  JSON_parse_def Let_def

lemmas service_defs = failing_service_def prose_service_def malformed_service_def
  wrapping_service_def braces_service_def printing_service_def unprintable_service_def

section \<open>The JSON pattern\<close>

lemma braces: "cu CHR ''{'' = 123" "cu CHR ''}'' = 125"
  by (simp_all add: cu_def)

lemma chr_eq: "chr c = (\<lambda>u. u = cu c)"
  by (simp add: chr_def fun_eq_iff)

lemma any_unit: "space_or_not = (\<lambda>u. True)"
  by (simp add: space_or_not_def fun_eq_iff)

lemma run_star_close_none:
  "c \<notin> set t \<Longrightarrow> run (Seq (Star (\<lambda>u. True)) (Atom (\<lambda>u. u = c))) (cs, t) = []"
  by (induction t) auto

text \<open>The greedy star first gives back the least it can: up to the last \<open>c\<close>.\<close>

lemma run_star_close_last:
  "c \<notin> set rest \<Longrightarrow>
   \<exists>more. run (Seq (Star (\<lambda>u. True)) (Atom (\<lambda>u. u = c))) (cs, pre @ c # rest) = (cs, rest) # more"
proof (induction pre)
  case Nil
  have none: "run (Seq (Star (\<lambda>u. True)) (Atom (\<lambda>u. u = c))) (cs, rest) = []"
    using Nil by (rule run_star_close_none)
  have one: "run (Seq (Star (\<lambda>u. True)) (Atom (\<lambda>u. u = c))) (cs, c # rest) =
        run (Seq (Star (\<lambda>u. True)) (Atom (\<lambda>u. u = c))) (cs, rest) @ [(cs, rest)]"
    by simp
  show ?case
    by (rule exI [of _ "[]"]) (simp only: append_Nil one none)
next
  case (Cons x pre)
  then show ?case by auto
qed

lemma json_match_none:
  "125 \<notin> set t \<Longrightarrow> string_match json_regex t = None"
proof (induction t)
  case Nil
  then show ?case by (simp add: json_regex_def)
next
  case (Cons x t)
  then have "run json_regex ([], x # t) = []"
    using run_star_close_none [of 125 t "[]"]
    by (simp add: json_regex_def chr_eq braces any_unit)
  with Cons show ?case by simp
qed

lemma json_match_at_open:
  assumes "125 \<notin> set rest"
  shows "string_match json_regex (123 # pre @ 125 # rest) = Some (123 # pre @ [125], [])"
proof -
  obtain more where
    "run (Seq (Star (\<lambda>u. True)) (Atom (\<lambda>u. u = 125))) ([], pre @ 125 # rest) = ([], rest) # more"
    using run_star_close_last [OF assms, of "[]" pre] by blast
  then show ?thesis
    by (simp add: json_regex_def chr_eq braces any_unit)
qed

lemma json_match_skip:
  "x \<noteq> 123 \<Longrightarrow> string_match json_regex (x # s) = string_match json_regex s"
  by (simp add: json_regex_def chr_def braces)

lemma string_match_json_regex:
  "map_option fst (string_match json_regex s) = first_to_last_brace s"
proof (induction s)
  case Nil
  then show ?case by (simp add: first_to_last_brace_def json_regex_def)
next
  case (Cons x s)
  show ?case
  proof (cases "x = 123")
    case False
    with Cons show ?thesis
      by (simp add: json_match_skip first_to_last_brace_def braces del: string_match.simps)
  next
    case True
    show ?thesis
    proof (cases "125 \<in> set s")
      case False
      then have "string_match json_regex (x # s) = None"
        using True json_match_none [of "x # s"] by simp
      with True False show ?thesis
        by (simp add: first_to_last_brace_def braces)
    next
      case yes: True
      then obtain pre rest where t: "s = pre @ 125 # rest" "125 \<notin> set rest"
        by (meson split_list_last)
      have "rev (dropWhile (\<lambda>u. u \<noteq> 125) (rev (x # s))) = x # pre @ [125]"
        using t by (auto simp: dropWhile_append3)
      with True yes t json_match_at_open [OF t(2), of pre] show ?thesis
        by (simp add: first_to_last_brace_def braces del: string_match.simps)
    qed
  qed
qed

lemma json_match_groups:
  "string_match json_regex s = Some m \<Longrightarrow> snd m = []"
proof (induction s)
  case Nil
  then show ?case by (simp add: json_regex_def)
next
  case (Cons x s)
  show ?case
  proof (cases "x = 123")
    case False
    with Cons show ?thesis
      by (simp add: json_match_skip del: string_match.simps)
  next
    case True
    show ?thesis
    proof (cases "125 \<in> set s")
      case False
      then show ?thesis
        using True Cons.prems json_match_none [of "x # s"] by simp
    next
      case yes: True
      then obtain pre rest where t: "s = pre @ 125 # rest" "125 \<notin> set rest"
        by (meson split_list_last)
      with True Cons.prems json_match_at_open [OF t(2), of pre] show ?thesis
        by (auto simp del: string_match.simps)
    qed
  qed
qed

section \<open>\<open>generateContent\<close>, case by case\<close>

lemma generateContent_cases:
  "generateContent model systemPrompt userInput fallbackData tr =
     (case model (service_calls tr) (prompt_of systemPrompt userInput) of
        Inl e \<Rightarrow>
          (Inr (or_else fallbackData unavailable),
           tr @ [Call (prompt_of systemPrompt userInput), ConsoleError])
      | Inr text \<Rightarrow>
          (case string_match json_regex text of
             None \<Rightarrow>
               (Inr (or_else fallbackData (success_data text)),
                tr @ [Call (prompt_of systemPrompt userInput)])
           | Some jsonMatch \<Rightarrow>
               (case JSON_parse (fst jsonMatch) of
                  None \<Rightarrow>
                    (Inr (or_else fallbackData (success_data text)),
                     tr @ [Call (prompt_of systemPrompt userInput), ConsoleWarn])
                | Some v \<Rightarrow> (Inr v, tr @ [Call (prompt_of systemPrompt userInput)]))))"
  by (simp add: generateContent_def comp_defs split: sum.splits option.splits)

lemma or_else_object: "is_object fb \<Longrightarrow> or_else (Some fb) d = fb"
  by (cases fb) simp_all





lemma prose_no_match: "string_match json_regex (str ''I cannot help with that.'') = None"
  by (simp add: class_defs json_regex_def)

lemma malformed_match:
  "string_match json_regex (str ''Here it is: {doctors: none}'') =
     Some (str ''{doctors: none}'', [])"
  by (simp add: class_defs json_regex_def)

lemma malformed_parse: "JSON_parse (str ''{doctors: none}'') = None"
  by (simp add: class_defs parse_defs)

section \<open>The claims about \<open>generateContent\<close>\<close>

text \<open>
  C1. In each of the three failure modes (the call of the external service throws; the
  response text has no match of the JSON pattern; the match does not parse),
  \<open>generateContent\<close> returns exactly the fallback object it was given, and in every
  case it returns a value and raises nothing.
\<close>

theorem generateContent_fallback_on_failure:
  "(is_object fallback \<and>
    model (service_calls tr) (prompt_of systemPrompt userInput) = Inl e \<longrightarrow>
      fst (generateContent model systemPrompt userInput (Some fallback) tr) = Inr fallback) \<and>
   (is_object fallback \<and>
    model (service_calls tr) (prompt_of systemPrompt userInput) = Inr text \<and>
    string_match json_regex text = None \<longrightarrow>
      fst (generateContent model systemPrompt userInput (Some fallback) tr) = Inr fallback) \<and>
   (is_object fallback \<and>
    model (service_calls tr) (prompt_of systemPrompt userInput) = Inr text \<and>
    string_match json_regex text = Some jsonMatch \<and> JSON_parse (fst jsonMatch) = None \<longrightarrow>
      fst (generateContent model systemPrompt userInput (Some fallback) tr) = Inr fallback) \<and>
   (\<exists>v. fst (generateContent model systemPrompt userInput fallbackData tr) = Inr v)"
  by (auto simp: generateContent_cases or_else_object
      simp del: string_match.simps or_else.simps split: sum.splits option.splits)

theorem generateContent_fallback_on_failure_witness:
  "fst (getDoctors failing_service []) = Inr getDoctors_fallbackData \<and>
   fst (getDoctors prose_service []) = Inr getDoctors_fallbackData \<and>
   fst (getDoctors malformed_service []) = Inr getDoctors_fallbackData"
  using
    generateContent_fallback_on_failure [of getDoctors_fallbackData failing_service "[]"
      getDoctors_systemPrompt "str ''List doctors''" ServiceError]
    generateContent_fallback_on_failure [of getDoctors_fallbackData prose_service "[]"
      getDoctors_systemPrompt "str ''List doctors''" _ "str ''I cannot help with that.''"]
    generateContent_fallback_on_failure [of getDoctors_fallbackData malformed_service "[]"
      getDoctors_systemPrompt "str ''List doctors''" _ "str ''Here it is: {doctors: none}''"
      "(str ''{doctors: none}'', [])"]
    prose_no_match malformed_match malformed_parse
  by (simp add: service_defs getDoctors_def getDoctors_fallbackData_def)

text \<open>
  C9. Without a fallback record, \<open>generateContent\<close> returns the raw text as
  \<open>{ success: true, data: text }\<close> when the response has no JSON or its JSON does not
  parse, and \<open>{ success: false, error: 'AI service temporarily unavailable' }\<close> when the
  call throws.
\<close>

theorem generateContent_without_fallback:
  "(model (service_calls tr) (prompt_of systemPrompt userInput) = Inl e \<longrightarrow>
      fst (generateContent model systemPrompt userInput None tr) =
        Inr (JObj [(str ''success'', JBool False),
                   (str ''error'', JStr (str ''AI service temporarily unavailable''))])) \<and>
   (model (service_calls tr) (prompt_of systemPrompt userInput) = Inr text \<and>
    string_match json_regex text = None \<longrightarrow>
      fst (generateContent model systemPrompt userInput None tr) =
        Inr (JObj [(str ''success'', JBool True), (str ''data'', JStr text)])) \<and>
   (model (service_calls tr) (prompt_of systemPrompt userInput) = Inr text \<and>
    string_match json_regex text = Some jsonMatch \<and> JSON_parse (fst jsonMatch) = None \<longrightarrow>
      fst (generateContent model systemPrompt userInput None tr) =
        Inr (JObj [(str ''success'', JBool True), (str ''data'', JStr text)]))"
  by (auto simp: generateContent_cases unavailable_def success_data_def
      simp del: string_match.simps split: sum.splits option.splits)

theorem generateContent_without_fallback_witness:
  "fst (generateContent failing_service getDoctors_systemPrompt (str ''List doctors'') None []) =
     Inr (JObj [(str ''success'', JBool False),
                (str ''error'', JStr (str ''AI service temporarily unavailable''))]) \<and>
   fst (generateContent prose_service getDoctors_systemPrompt (str ''List doctors'') None []) =
     Inr (JObj [(str ''success'', JBool True),
                (str ''data'', JStr (str ''I cannot help with that.''))]) \<and>
   fst (generateContent malformed_service getDoctors_systemPrompt (str ''List doctors'') None []) =
     Inr (JObj [(str ''success'', JBool True),
                (str ''data'', JStr (str ''Here it is: {doctors: none}''))])"
  using
    generateContent_without_fallback [of failing_service "[]" getDoctors_systemPrompt
      "str ''List doctors''" ServiceError]
    generateContent_without_fallback [of prose_service "[]" getDoctors_systemPrompt
      "str ''List doctors''" _ "str ''I cannot help with that.''"]
    generateContent_without_fallback [of malformed_service "[]" getDoctors_systemPrompt
      "str ''List doctors''" _ "str ''Here it is: {doctors: none}''"
      "(str ''{doctors: none}'', [])"]
    prose_no_match malformed_match malformed_parse
  by (simp add: service_defs)

text \<open>
  C5. The extraction selects the substring from the first \<open>{\<close> of the response text to
  its last \<open>}\<close>; \<open>JSON.parse\<close> is applied to exactly that substring, and when there is
  no such substring nothing is parsed: the fallback is returned and no warning logged.
\<close>

theorem extraction_first_to_last_brace:
  "map_option fst (string_match json_regex text) = first_to_last_brace text \<and>
   (model (service_calls tr) (prompt_of systemPrompt userInput) = Inr text \<longrightarrow>
      generateContent model systemPrompt userInput fallbackData tr =
        (case first_to_last_brace text of
           None \<Rightarrow>
             (Inr (or_else fallbackData (success_data text)),
              tr @ [Call (prompt_of systemPrompt userInput)])
         | Some candidate \<Rightarrow>
             (case JSON_parse candidate of
                Some v \<Rightarrow> (Inr v, tr @ [Call (prompt_of systemPrompt userInput)])
              | None \<Rightarrow>
                  (Inr (or_else fallbackData (success_data text)),
                   tr @ [Call (prompt_of systemPrompt userInput), ConsoleWarn]))))"
proof -
  have m: "map_option fst (string_match json_regex text) = first_to_last_brace text"
    by (rule string_match_json_regex)
  show ?thesis
  proof (cases "string_match json_regex text")
    case None
    with m show ?thesis
      by (simp add: generateContent_cases del: string_match.simps)
  next
    case (Some jsonMatch)
    with m have "first_to_last_brace text = Some (fst jsonMatch)" by simp
    with m Some show ?thesis
      by (simp add: generateContent_cases del: string_match.simps split: option.splits)
  qed
qed

lemma braces_candidate:
  "first_to_last_brace (str ''Plan {draft}: {\"total_shelters\": 15}'') =
     Some (str ''{draft}: {\"total_shelters\": 15}'')"
  by (simp add: first_to_last_brace_def class_defs)

lemma braces_candidate_parse: "JSON_parse (str ''{draft}: {\"total_shelters\": 15}'') = None"
  by (simp add: class_defs parse_defs)

theorem extraction_first_to_last_brace_witness:
  "map_option fst (string_match json_regex (str ''Plan {draft}: {\"total_shelters\": 15}'')) =
     Some (str ''{draft}: {\"total_shelters\": 15}'') \<and>
   getShelterStats braces_service [] =
     (Inr getShelterStats_fallbackData,
      [Call (prompt_of getShelterStats_systemPrompt (str ''Generate shelter statistics'')),
       ConsoleWarn])"
  using
    extraction_first_to_last_brace [of "str ''Plan {draft}: {\"total_shelters\": 15}''"
      braces_service "[]" getShelterStats_systemPrompt "str ''Generate shelter statistics''"
      "Some getShelterStats_fallbackData"]
    braces_candidate braces_candidate_parse
  by (simp add: service_defs getShelterStats_def getShelterStats_fallbackData_def)

section \<open>Conversions to strings\<close>

lemma all_of_Inr_iff: "(\<exists>xs. all_of ps = Inr xs) = (\<forall>p\<in>set ps. \<exists>x. p = Inr x)"
proof (induction ps)
  case Nil
  show ?case by simp
next
  case (Cons p ps)
  show ?case
  proof (cases p)
    case (Inl e)
    then show ?thesis by auto
  next
    case (Inr x)
    with Cons show ?thesis by (cases "all_of ps") auto
  qed
qed

lemma all_of_Inl: "all_of ps = Inl e \<Longrightarrow> Inl e \<in> set ps"
proof (induction ps)
  case Nil
  then show ?case by simp
next
  case (Cons p ps)
  then show ?case by (cases p) (auto split: sum.splits)
qed

lemma template_Inr_iff: "(\<exists>s. template ps = Inr s) = (\<forall>p\<in>set ps. \<exists>x. p = Inr x)"
  using all_of_Inr_iff [of ps] by (cases "all_of ps") (auto simp: template_def)


lemma to_string_TypeError: "to_string v = Inl e \<Longrightarrow> e = TypeError"
proof (induction v rule: to_string.induct)
  case (5 xs)
  from 5(2) have "all_of (map (\<lambda>x. if x = JNull then Inr [] else to_string x) xs) = Inl e"
    by (simp split: sum.splits)
  then have "Inl e \<in> set (map (\<lambda>x. if x = JNull then Inr [] else to_string x) xs)"
    by (rule all_of_Inl)
  then obtain x where "x \<in> set xs" "x \<noteq> JNull" "to_string x = Inl e"
    by (auto split: if_splits)
  then show ?case by (rule 5(1))
qed (simp_all split: if_splits)

lemma to_string_or_else: "(\<exists>s. to_string (or_else v (JStr d)) = Inr s) = converts v"
proof (cases v)
  case None
  then show ?thesis by (simp add: converts_def)
next
  case (Some x)
  then show ?thesis by (cases "truthy x") (simp_all add: converts_def split: sum.splits)
qed

lemma not_converts: "\<not> converts v \<Longrightarrow> to_string (or_else v (JStr d)) = Inl TypeError"
  using to_string_or_else [of v d] to_string_TypeError [of "or_else v (JStr d)"]
  by (cases "to_string (or_else v (JStr d))") auto



lemma allocation_plan_text_returns:
  "(\<exists>s. allocation_plan_text priority_focus f date = Inr s) = converts priority_focus"
  unfolding allocation_plan_text_def template_Inr_iff
  by (simp add: chars_def to_string_or_else del: to_string.simps or_else.simps)

lemma human_summary_text_returns:
  "(\<exists>s. human_summary_text priority_focus f = Inr s) = converts priority_focus"
  unfolding human_summary_text_def template_Inr_iff
  by (simp add: chars_def to_string_or_else del: to_string.simps or_else.simps)

lemma generateWastePlan_fallbackData_returns:
  "(\<exists>fallbackData.
      generateWastePlan_fallbackData priority_focus f date = Inr fallbackData) =
   converts priority_focus"
  using allocation_plan_text_returns [of priority_focus f date]
    human_summary_text_returns [of priority_focus f]
  by (cases "allocation_plan_text priority_focus f date";
      cases "human_summary_text priority_focus f")
    (auto simp: generateWastePlan_fallbackData_def)


lemma generateWastePlan_fallbackData_object:
  "generateWastePlan_fallbackData priority_focus f date = Inr fallbackData \<Longrightarrow>
   is_object fallbackData"
  by (auto simp: generateWastePlan_fallbackData_def split: sum.splits)

lemma generateWastePlan_fallbackData_impact:
  "generateWastePlan_fallbackData priority_focus f date = Inr fallbackData \<Longrightarrow>
   get fallbackData (str ''estimated_impact'') = Some (estimated_impact_of f)"
proof -
  have k: "str ''allocation_plan'' \<noteq> str ''estimated_impact''"
    "str ''human_summary'' \<noteq> str ''estimated_impact''"
    by (simp_all add: str_def)
  assume "generateWastePlan_fallbackData priority_focus f date = Inr fallbackData"
  then show ?thesis
    by (auto simp: generateWastePlan_fallbackData_def k k [THEN not_sym] split: sum.splits)
qed

section \<open>The number of calls of the external service\<close>







text \<open>
  \<open>generateWastePlan\<close>: it throws before any call unless \<open>raw_report\<close> is a string and the
  fallback plan can be built, and then returns what \<open>generateContent\<close> returns.
\<close>

lemma generateWastePlan_cases:
  "generateWastePlan model planData date tr =
     (case get planData (str ''raw_report'') of
        Some (JStr raw_report) \<Rightarrow>
          (case generateWastePlan_fallbackData (get planData (str ''priority_focus''))
                  (extractFoodItems raw_report) date of
             Inl e \<Rightarrow> (Inl e, tr)
           | Inr fallbackData \<Rightarrow>
               generateContent model generateWastePlan_systemPrompt (JSON_stringify planData)
                 (Some fallbackData) tr)
      | _ \<Rightarrow> (Inl TypeError, tr))"
  by (simp add: generateWastePlan_def and_then_def of_result_def throw_def
      split: option.splits json.splits sum.splits)
















section \<open>The presentation component\<close>

text \<open>
  C8. The click handler sets the state to the static plan whatever the state was, so any
  number of clicks, one or more, leaves the same state and the same rendered content as
  one click.
\<close>

theorem handleGenerateShelterPlan_idempotent:
  "handleGenerateShelterPlan generatedShelterPlan = Some staticShelterPlan \<and>
   (handleGenerateShelterPlan ^^ Suc n) generatedShelterPlan =
     handleGenerateShelterPlan generatedShelterPlan \<and>
   SmartShelterAllocator ((handleGenerateShelterPlan ^^ Suc n) generatedShelterPlan) =
     SmartShelterAllocator (handleGenerateShelterPlan generatedShelterPlan) \<and>
   handleGenerateShelterPlan (handleGenerateShelterPlan generatedShelterPlan) =
     handleGenerateShelterPlan generatedShelterPlan"
  by (simp add: handleGenerateShelterPlan_def)

theorem handleGenerateShelterPlan_idempotent_witness:
  "(handleGenerateShelterPlan ^^ Suc 1) None = Some staticShelterPlan \<and>
   SmartShelterAllocator ((handleGenerateShelterPlan ^^ Suc 1) None) =
     [str ''Generate Shelter Plan'', str ''Generated Shelter Plan'',
      str ''Shelter beds allocated: 50 to Center A, 30 to Center B.'',
      str ''Shelter allocation completed.'', str ''Estimated Impact'',
      str ''People Served: 80'', str ''Beds Allocated: 80'',
      str ''Economic Value (Rupees): 12000'', str ''Emissions Saved (kg): 20'']"
  using handleGenerateShelterPlan_idempotent [of None 1]
  by (simp add: SmartShelterAllocator_def staticShelterPlan_def handleGenerateShelterPlan_def
      nat_text.simps str_def digit_char_def)

section \<open>The food patterns\<close>

lemma takeWhile_all: "list_all P xs \<Longrightarrow> takeWhile P xs = xs"
  by (simp add: list_all_iff)

lemma run_star_members:
  "(cs', rest) \<in> set (run (Star p) (cs, s)) \<Longrightarrow> cs' = cs \<and> (\<exists>g. s = g @ rest \<and> list_all p g)"
proof (induction s)
  case Nil
  then show ?case by simp
next
  case (Cons x s)
  show ?case
  proof (cases "(cs', rest) = (cs, x # s)")
    case True
    then show ?thesis by simp
  next
    case False
    with Cons.prems have px: "p x" and "(cs', rest) \<in> set (run (Star p) (cs, s))"
      by (auto split: if_splits)
    with Cons.IH obtain g where "cs' = cs" "s = g @ rest" "list_all p g" by blast
    with px show ?thesis
      by (intro conjI exI [of _ "x # g"]) simp_all
  qed
qed

lemma run_lazy_members:
  "(cs', rest) \<in> set (run (LazyStar p) (cs, s)) \<Longrightarrow> cs' = cs"
  by (induction s) (auto split: if_splits)

lemma run_group_free:
  "group_free r \<Longrightarrow> (cs', rest) \<in> set (run r (cs, s)) \<Longrightarrow> cs' = cs"
proof (induction r arbitrary: cs s cs' rest)
  case (Atom p)
  then show ?case by (cases s) (auto split: if_splits)
next
  case Eps
  then show ?case by simp
next
  case (Seq r1 r2)
  from Seq.prems obtain mid where
    "mid \<in> set (run r1 (cs, s))" "(cs', rest) \<in> set (run r2 mid)"
    by auto
  with Seq.IH Seq.prems(1) show ?case
    by (cases mid) fastforce
next
  case (Alt r1 r2)
  then show ?case by auto
next
  case (Star p)
  then show ?case using run_star_members by blast
next
  case (LazyStar p)
  then show ?case using run_lazy_members by blast
next
  case (Group r)
  then show ?case by simp
qed

lemma run_digits_members:
  assumes "(cs', rest) \<in> set (run (Group (Plus digit)) (cs, s))"
  shows "\<exists>g. cs' = cs @ [g] \<and> g \<noteq> [] \<and> list_all digit g"
proof (cases s)
  case Nil
  with assms show ?thesis by (simp add: Plus_def)
next
  case (Cons x t)
  with assms have dx: "digit x" and "\<exists>c. (c, rest) \<in> set (run (Star digit) (cs, t)) \<and> cs' = c @ [take (length s - length rest) s]"
    by (auto simp: Plus_def split: if_splits)
  then obtain c where c: "(c, rest) \<in> set (run (Star digit) (cs, t))" "cs' = c @ [take (length s - length rest) s]"
    by blast
  from run_star_members [OF c(1)] obtain g where g: "c = cs" "t = g @ rest" "list_all digit g"
    by blast
  with Cons have "take (length s - length rest) s = x # g" by simp
  with c g dx show ?thesis by simp
qed

lemma run_quantity_members:
  assumes "group_free u" "group_free item"
    and "(cs', rest) \<in> set (run (quantity_of u item) ([], s))"
  shows "\<exists>g. cs' = [g] \<and> g \<noteq> [] \<and> list_all digit g"
proof -
  from assms(3) have
    "(cs', rest) \<in> set (concat (map (run (Seq (Star space) (Seq u (Seq (LazyStar dot) item))))
        (run (Group (Plus digit)) ([], s))))"
    unfolding quantity_of_def run.simps(4) .
  then obtain mid where
    mid: "mid \<in> set (run (Group (Plus digit)) ([], s))"
      "(cs', rest) \<in> set (run (Seq (Star space) (Seq u (Seq (LazyStar dot) item))) mid)"
    by (auto simp del: run.simps)
  obtain c t where ct: "mid = (c, t)" by (cases mid)
  have "group_free (Seq (Star space) (Seq u (Seq (LazyStar dot) item)))"
    using assms by simp
  from run_group_free [OF this] mid(2) ct have "cs' = c" by blast
  with run_digits_members [of c t "[]" s] mid(1) ct show ?thesis by simp
qed

lemma string_match_members:
  "string_match r s = Some m \<Longrightarrow> \<exists>t rest. (snd m, rest) \<in> set (run r ([], t))"
proof (induction s)
  case Nil
  then obtain c rest sts where "run r ([], []) = (c, rest) # sts" "snd m = c"
    by (cases "run r ([], [])") (auto split: prod.splits)
  then have "(snd m, rest) \<in> set (run r ([], []))" by simp
  then show ?case by blast
next
  case (Cons x s)
  show ?case
  proof (cases "run r ([], x # s)")
    case Nil
    with Cons show ?thesis by simp
  next
    case (Cons st sts)
    obtain c rest where "st = (c, rest)" by (cases st)
    with Cons Cons.prems have "(snd m, rest) \<in> set (run r ([], x # s))"
      by auto
    then show ?thesis by blast
  qed
qed

lemma group_free_lit_i: "group_free (lit_i w)"
  by (induction w rule: lit_i.induct) simp_all

lemma group_free_units: "group_free kg" "group_free liters"
  by (simp_all add: kg_def liters_def Opt_def group_free_lit_i del: lit_i.simps)

lemma patterns_shape:
  assumes "p \<in> set patterns"
  shows "\<exists>u item. regex p = quantity_of u item \<and> group_free u \<and> group_free item"
proof -
  from assms consider "p = tomatoes" | "p = milk" | "p = potatoes" | "p = rice"
    by (auto simp: patterns_def)
  then show ?thesis
  proof cases
    case 1
    show ?thesis
      by (rule exI [of _ kg], rule exI [of _ "Alt (lit_i ''tomato'') (lit_i ''tomatoes'')"])
        (simp add: 1 tomatoes_def group_free_units group_free_lit_i del: lit_i.simps)
  next
    case 2
    show ?thesis
      by (rule exI [of _ liters], rule exI [of _ "lit_i ''milk''"])
        (simp add: 2 milk_def group_free_units group_free_lit_i del: lit_i.simps)
  next
    case 3
    show ?thesis
      by (rule exI [of _ kg], rule exI [of _ "Alt (lit_i ''potato'') (lit_i ''potatoes'')"])
        (simp add: 3 potatoes_def group_free_units group_free_lit_i del: lit_i.simps)
  next
    case 4
    show ?thesis
      by (rule exI [of _ kg], rule exI [of _ "lit_i ''rice''"])
        (simp add: 4 rice_def group_free_units group_free_lit_i del: lit_i.simps)
  qed
qed

text \<open>
  Every match of a food pattern has one capture, a non-empty string of digits, so
  \<open>match[1]\<close> exists and \<open>parseInt\<close> reads all of it.
\<close>

lemma food_match_shape:
  assumes "p \<in> set patterns" "string_match (regex p) report = Some m"
  shows "\<exists>g. snd m = [g] \<and> g \<noteq> [] \<and> list_all digit g \<and> parseInt (group m 1) = digits_val g"
proof -
  from patterns_shape [OF assms(1)] obtain u item where
    r: "regex p = quantity_of u item" "group_free u" "group_free item"
    by blast
  from string_match_members [OF assms(2)] r(1) obtain t rest where
    "(snd m, rest) \<in> set (run (quantity_of u item) ([], t))"
    by auto
  from run_quantity_members [OF r(2,3) this] obtain g where
    g: "snd m = [g]" "g \<noteq> []" "list_all digit g"
    by blast
  then show ?thesis
    by (simp add: parseInt_def group_def takeWhile_all)
qed

lemma quantity_skip:
  "\<not> digit x \<Longrightarrow> string_match (quantity_of u item) (x # s) = string_match (quantity_of u item) s"
  by (simp add: quantity_of_def Plus_def)

lemma quantity_skip_prefix:
  "\<forall>x\<in>set pre. \<not> digit x \<Longrightarrow>
   string_match (quantity_of u item) (pre @ s) = string_match (quantity_of u item) s"
  by (induction pre) (simp_all add: quantity_skip del: string_match.simps)

text \<open>The greedy \<open>\d+\<close> first takes all the digits there are.\<close>

lemma run_star_digits:
  "list_all digit ds \<Longrightarrow> rest = [] \<or> \<not> digit (hd rest) \<Longrightarrow>
   \<exists>more. run (Star digit) (cs, ds @ rest) = (cs, rest) # more"
proof (induction ds)
  case Nil
  then show ?case by (cases rest) auto
next
  case (Cons d ds)
  then show ?case by auto
qed

lemma run_group_digits:
  assumes "list_all digit ds" "ds \<noteq> []" "rest = [] \<or> \<not> digit (hd rest)"
  shows "\<exists>more. run (Group (Plus digit)) (cs, ds @ rest) = (cs @ [ds], rest) # more"
proof -
  from assms(2) obtain d ds' where ds: "ds = d # ds'" by (cases ds) auto
  with assms(1) have d: "digit d" "list_all digit ds'" by simp_all
  from run_star_digits [OF d(2) assms(3)] obtain more where
    "run (Star digit) (cs, ds' @ rest) = (cs, rest) # more" by blast
  with ds d show ?thesis
    by (simp add: Plus_def)
qed

lemma run_kg_tomatoes:
  "\<exists>more. run (Seq (Star space) (Seq kg (Seq (LazyStar dot)
       (Alt (lit_i ''tomato'') (lit_i ''tomatoes''))))) (cs, str ''kg tomatoes'' @ post) =
     (cs, str ''es'' @ post) # more"
  by (simp add: kg_def class_defs)

lemma tomatoes_match_here:
  assumes "list_all digit ds" "ds \<noteq> []"
  shows "string_match (regex tomatoes) (ds @ str ''kg tomatoes'' @ post) =
           Some (ds @ str ''kg tomato'', [ds])"
proof -
  define tail where
    "tail = Seq (Star space) (Seq kg (Seq (LazyStar dot)
       (Alt (lit_i ''tomato'') (lit_i ''tomatoes''))))"
  have "\<not> digit (hd (str ''kg tomatoes'' @ post))"
    by (simp add: str_def digit_def)
  with run_group_digits [OF assms, of "str ''kg tomatoes'' @ post" "[]"] obtain more where
    g: "run (Group (Plus digit)) ([], ds @ str ''kg tomatoes'' @ post) =
          ([ds], str ''kg tomatoes'' @ post) # more"
    by auto
  obtain more' where
    r: "run tail ([ds], str ''kg tomatoes'' @ post) = ([ds], str ''es'' @ post) # more'"
    using run_kg_tomatoes [of "[ds]" post] unfolding tail_def by blast
  have "run (regex tomatoes) ([], ds @ str ''kg tomatoes'' @ post) =
        concat (map (run tail) (run (Group (Plus digit)) ([], ds @ str ''kg tomatoes'' @ post)))"
    unfolding tomatoes_def quantity_of_def tail_def by (simp del: run.simps add: run.simps(4))
  also have "\<dots> = ([ds], str ''es'' @ post) # more' @ concat (map (run tail) more)"
    unfolding g by (simp del: run.simps add: r)
  finally have
    "run (regex tomatoes) ([], ds @ str ''kg tomatoes'' @ post) =
       ([ds], str ''es'' @ post) # more' @ concat (map (run tail) more)" .
  then show ?thesis
    by (simp add: str_def)
qed

lemma tomatoes_first_match:
  assumes "\<forall>x\<in>set pre. \<not> digit x" "list_all digit ds" "ds \<noteq> []"
  shows "string_match (regex tomatoes) (pre @ ds @ str ''kg tomatoes'' @ post) =
           Some (ds @ str ''kg tomato'', [ds])"
proof -
  have "string_match (regex tomatoes) (pre @ ds @ str ''kg tomatoes'' @ post) =
        string_match (regex tomatoes) (ds @ str ''kg tomatoes'' @ post)"
    using quantity_skip_prefix [OF assms(1)] by (simp add: tomatoes_def)
  with tomatoes_match_here [OF assms(2,3)] show ?thesis by simp
qed

lemma tomatoes_first_quantity:
  assumes "\<forall>x\<in>set pre. \<not> digit x" "list_all digit ds" "ds \<noteq> []"
  shows "first_quantity tomatoes (pre @ ds @ str ''kg tomatoes'' @ post) = Some (digits_val ds)"
  using tomatoes_first_match [OF assms] assms(2)
  by (simp add: first_quantity_def parseInt_def group_def takeWhile_all)

section \<open>\<open>extractFoodItems\<close>, pattern by pattern\<close>

lemma forEach_body_first_quantity:
  "forEach_body report acc p =
     (case first_quantity p report of
        None \<Rightarrow> acc
      | Some q \<Rightarrow>
          \<lparr>items = items acc @ [name p @ str '': '' @ nat_text q @ unit p],
           totalQuantity = totalQuantity acc + q,
           totalValue = totalValue acc + q * price p\<rparr>)"
  by (simp add: forEach_body_def first_quantity_def Let_def
      del: string_match.simps split: option.splits)

lemma foldl_forEach_body:
  "foldl (forEach_body report) acc ps =
     \<lparr>items = items acc @ concat (map (\<lambda>p. entry p report) ps),
      totalQuantity = totalQuantity acc +
        sum_list (map (\<lambda>p. case first_quantity p report of None \<Rightarrow> 0 | Some q \<Rightarrow> q) ps),
      totalValue = totalValue acc +
        sum_list (map (\<lambda>p. case first_quantity p report of None \<Rightarrow> 0 | Some q \<Rightarrow> q * price p) ps)\<rparr>"
proof (induction ps arbitrary: acc)
  case Nil
  then show ?case by simp
next
  case (Cons p ps)
  show ?case
    unfolding foldl_Cons Cons [of "forEach_body report acc p"]
    by (cases "first_quantity p report")
      (simp_all add: forEach_body_first_quantity entry_def)
qed

lemma length_entries: "length (concat (map (\<lambda>p. entry p report) ps)) \<le> length ps"
  by (induction ps) (auto simp: entry_def split: option.splits)

lemma extractFoodItems_closed_form:
  "extractFoodItems report =
     \<lparr>items = concat (map (\<lambda>p. entry p report) patterns),
      totalQuantity =
        sum_list (map (\<lambda>p. case first_quantity p report of None \<Rightarrow> 0 | Some q \<Rightarrow> q) patterns),
      totalValue =
        sum_list (map (\<lambda>p. case first_quantity p report of None \<Rightarrow> 0 | Some q \<Rightarrow> q * price p)
          patterns)\<rparr>"
  by (simp add: extractFoodItems_def foldl_forEach_body)

lemma first_quantity_None:
  "string_match (regex p) report = None \<Longrightarrow> first_quantity p report = None"
  by (simp add: first_quantity_def)

text \<open>
  C7. When no food pattern matches the report, the fallback plan of
  \<open>generateWastePlan\<close> has \<open>people_served\<close> 50 and \<open>food_saved_kg\<close> 200, and it is the
  plan the method returns when the service fails. The plan exists when \<open>priority_focus\<close>
  evaluates in its template.
\<close>

theorem fallback_plan_defaults:
  "(\<forall>p\<in>set patterns. string_match (regex p) report = None) \<longrightarrow>
     (converts priority_focus \<longrightarrow>
        (\<exists>fallbackData.
            generateWastePlan_fallbackData priority_focus (extractFoodItems report) date =
              Inr fallbackData \<and>
            get fallbackData (str ''estimated_impact'') =
              Some (estimated_impact_of (extractFoodItems report)))) \<and>
     get (estimated_impact_of (extractFoodItems report)) (str ''people_served'') =
       Some (JNum 50) \<and>
     get (estimated_impact_of (extractFoodItems report)) (str ''food_saved_kg'') =
       Some (JNum 200) \<and>
     (get planData (str ''raw_report'') = Some (JStr report) \<and>
      model (service_calls tr)
        (prompt_of generateWastePlan_systemPrompt (JSON_stringify planData)) = Inl e \<longrightarrow>
        fst (generateWastePlan model planData date tr) =
          generateWastePlan_fallbackData (get planData (str ''priority_focus''))
            (extractFoodItems report) date)"
proof (intro impI)
  assume none: "\<forall>p\<in>set patterns. string_match (regex p) report = None"
  then have "\<forall>p\<in>set patterns. first_quantity p report = None"
    by (simp add: first_quantity_None del: string_match.simps)
  then have f: "extractFoodItems report = \<lparr>items = [], totalQuantity = 0, totalValue = 0\<rparr>"
    by (simp add: extractFoodItems_closed_form entry_def patterns_def)
  have k: "str ''people_served'' \<noteq> str ''food_saved_kg''"
    by (simp add: str_def)
  have plan: "converts priority_focus \<longrightarrow>
        (\<exists>fallbackData.
            generateWastePlan_fallbackData priority_focus (extractFoodItems report) date =
              Inr fallbackData \<and>
            get fallbackData (str ''estimated_impact'') =
              Some (estimated_impact_of (extractFoodItems report)))"
    using generateWastePlan_fallbackData_returns [of priority_focus "extractFoodItems report" date]
      generateWastePlan_fallbackData_impact [of priority_focus "extractFoodItems report" date]
    by blast
  have impact: "get (estimated_impact_of (extractFoodItems report)) (str ''people_served'') =
       Some (JNum 50)"
    "get (estimated_impact_of (extractFoodItems report)) (str ''food_saved_kg'') =
       Some (JNum 200)"
    unfolding f
    by (simp_all add: estimated_impact_of_def k k [THEN not_sym] estimatedPeople_def
        or_default_def)
  have returned: "get planData (str ''raw_report'') = Some (JStr report) \<and>
      model (service_calls tr)
        (prompt_of generateWastePlan_systemPrompt (JSON_stringify planData)) = Inl e \<longrightarrow>
        fst (generateWastePlan model planData date tr) =
          generateWastePlan_fallbackData (get planData (str ''priority_focus''))
            (extractFoodItems report) date"
  proof (intro impI, elim conjE)
    assume raw: "get planData (str ''raw_report'') = Some (JStr report)"
      and down: "model (service_calls tr)
        (prompt_of generateWastePlan_systemPrompt (JSON_stringify planData)) = Inl e"
    show "fst (generateWastePlan model planData date tr) =
          generateWastePlan_fallbackData (get planData (str ''priority_focus''))
            (extractFoodItems report) date"
    proof (cases "generateWastePlan_fallbackData (get planData (str ''priority_focus''))
            (extractFoodItems report) date")
      case (Inl e')
      then show ?thesis
        unfolding generateWastePlan_cases raw by simp
    next
      case (Inr fb)
      then have "is_object fb"
        by (rule generateWastePlan_fallbackData_object)
      with Inr down show ?thesis
        unfolding generateWastePlan_cases raw
        by (simp add: generateContent_cases or_else_object del: or_else.simps)
    qed
  qed
  from plan impact returned
  show "(converts priority_focus \<longrightarrow>
        (\<exists>fallbackData.
            generateWastePlan_fallbackData priority_focus (extractFoodItems report) date =
              Inr fallbackData \<and>
            get fallbackData (str ''estimated_impact'') =
              Some (estimated_impact_of (extractFoodItems report)))) \<and>
     get (estimated_impact_of (extractFoodItems report)) (str ''people_served'') =
       Some (JNum 50) \<and>
     get (estimated_impact_of (extractFoodItems report)) (str ''food_saved_kg'') =
       Some (JNum 200) \<and>
     (get planData (str ''raw_report'') = Some (JStr report) \<and>
      model (service_calls tr)
        (prompt_of generateWastePlan_systemPrompt (JSON_stringify planData)) = Inl e \<longrightarrow>
        fst (generateWastePlan model planData date tr) =
          generateWastePlan_fallbackData (get planData (str ''priority_focus''))
            (extractFoodItems report) date)"
    by blast
qed

lemma empty_report_no_match: "\<forall>p\<in>set patterns. string_match (regex p) [] = None"
  by (simp add: patterns_def tomatoes_def milk_def potatoes_def rice_def quantity_of_def
      Plus_def)

lemma itemless_report_no_match:
  "\<forall>p\<in>set patterns. string_match (regex p) (str ''assorted vegetables, 3 crates'') = None"
  by (simp add: patterns_def tomatoes_def milk_def potatoes_def rice_def quantity_of_def
      kg_def liters_def class_defs)

lemma empty_report_get:
  "get (JObj [(str ''raw_report'', JStr [])]) (str ''raw_report'') = Some (JStr [])"
  "get (JObj [(str ''raw_report'', JStr [])]) (str ''priority_focus'') = None"
  "converts None"
  by (simp_all add: converts_def str_def)

theorem fallback_plan_defaults_witness:
  "get (estimated_impact_of (extractFoodItems [])) (str ''people_served'') = Some (JNum 50) \<and>
   get (estimated_impact_of (extractFoodItems [])) (str ''food_saved_kg'') = Some (JNum 200) \<and>
   get (estimated_impact_of (extractFoodItems (str ''assorted vegetables, 3 crates'')))
     (str ''people_served'') = Some (JNum 50) \<and>
   get (estimated_impact_of (extractFoodItems (str ''assorted vegetables, 3 crates'')))
     (str ''food_saved_kg'') = Some (JNum 200) \<and>
   \<not> isl (generateWastePlan_fallbackData None (extractFoodItems [])
            (str ''1/16/2024, 9:00:00 AM'')) \<and>
   fst (generateWastePlan failing_service (JObj [(str ''raw_report'', JStr [])])
          (str ''1/16/2024, 9:00:00 AM'') []) =
     generateWastePlan_fallbackData None (extractFoodItems []) (str ''1/16/2024, 9:00:00 AM'')"
proof -
  have down: "failing_service (service_calls [])
      (prompt_of generateWastePlan_systemPrompt
         (JSON_stringify (JObj [(str ''raw_report'', JStr [])]))) = Inl ServiceError"
    by (simp add: failing_service_def)
  show ?thesis
    using fallback_plan_defaults [of "[]" None "str ''1/16/2024, 9:00:00 AM''"
        "JObj [(str ''raw_report'', JStr [])]" failing_service "[]" ServiceError]
      fallback_plan_defaults [of "str ''assorted vegetables, 3 crates''"]
      empty_report_no_match itemless_report_no_match empty_report_get down
    by (auto simp del: get.simps)
qed

lemma tomatoes_fields: "name tomatoes = str ''Tomatoes''" "unit tomatoes = str ''kg''" "price tomatoes = 15"
  by (simp_all add: tomatoes_def)

text \<open>
  C6. The report \<open>100kg rice and 50kg tomatoes\<close> contains \<open>50kg tomatoes\<close>, and the
  extraction gives the tomatoes the quantity of the rice: the tomato pattern matches from
  the leftmost quantity in kilograms, and its \<open>.*?\<close> runs over the rice to the word
  \<open>tomatoes\<close>. It reports \<open>Tomatoes: 100kg\<close> and adds \<open>100 * 15 = 1500\<close> to \<open>totalValue\<close>,
  where the claim has quantity 50 and \<open>50 * 15 = 750\<close>. On \<open>50kg tomatoes\<close> alone, and
  after an earlier number that is no quantity in kilograms, it gives 50 and 750.
\<close>

theorem tomatoes_take_the_quantity_of_rice:
  "first_quantity tomatoes (str ''100kg rice and 50kg tomatoes'') = Some 100 \<and>
   extractFoodItems (str ''100kg rice and 50kg tomatoes'') =
     \<lparr>items = [str ''Tomatoes: 100kg'', str ''Rice: 100kg''],
      totalQuantity = 200, totalValue = 100 * 15 + 100 * 25\<rparr> \<and>
   extractFoodItems (str ''50kg tomatoes'') =
     \<lparr>items = [str ''Tomatoes: 50kg''], totalQuantity = 50, totalValue = 50 * 15\<rparr> \<and>
   extractFoodItems (str ''Day 2: 50kg tomatoes'') =
     \<lparr>items = [str ''Tomatoes: 50kg''], totalQuantity = 50, totalValue = 50 * 15\<rparr>"
  by (simp add: first_quantity_def extractFoodItems_def patterns_def forEach_body_def
      tomatoes_def milk_def potatoes_def rice_def quantity_of_def kg_def liters_def class_defs
      parseInt_def group_def digits_val_def digit_char_def nat_text.simps Let_def)

text \<open>
  C10. Each food pattern contributes at most once, with the quantity of its leftmost
  match: \<open>items\<close> has at most one line per pattern, and the totals add that one quantity.
  What follows the first match of the tomato pattern, a second quantity of tomatoes
  included, is ignored.
\<close>

theorem first_match_only:
  "items (extractFoodItems report) = concat (map (\<lambda>p. entry p report) patterns) \<and>
   length (items (extractFoodItems report)) \<le> 4 \<and>
   totalQuantity (extractFoodItems report) =
     sum_list (map (\<lambda>p. case first_quantity p report of None \<Rightarrow> 0 | Some q \<Rightarrow> q) patterns) \<and>
   totalValue (extractFoodItems report) =
     sum_list (map (\<lambda>p. case first_quantity p report of None \<Rightarrow> 0 | Some q \<Rightarrow> q * price p)
       patterns) \<and>
   ((\<forall>x\<in>set pre. \<not> digit x) \<and> list_all digit ds \<and> ds \<noteq> [] \<longrightarrow>
      first_quantity tomatoes (pre @ ds @ str ''kg tomatoes'' @ post) = Some (digits_val ds))"
  using length_entries [of report patterns]
  by (simp add: extractFoodItems_closed_form tomatoes_first_quantity) (simp add: patterns_def)

lemma digits_10: "list_all digit (str ''10'')" "str ''10'' \<noteq> []" "digits_val (str ''10'') = 10"
  by (simp_all add: str_def digit_def digits_val_def)

lemma twice_others:
  "first_quantity milk (str ''10kg tomatoes and 20kg tomatoes'') = None"
  "first_quantity potatoes (str ''10kg tomatoes and 20kg tomatoes'') = None"
  "first_quantity rice (str ''10kg tomatoes and 20kg tomatoes'') = None"
  by (simp_all add: first_quantity_def milk_def potatoes_def rice_def quantity_of_def kg_def
      liters_def class_defs)

theorem first_match_only_witness:
  "extractFoodItems (str ''10kg tomatoes and 20kg tomatoes'') =
     \<lparr>items = [str ''Tomatoes: 10kg''], totalQuantity = 10, totalValue = 150\<rparr>"
proof -
  have s: "str ''10kg tomatoes and 20kg tomatoes'' =
      [] @ str ''10'' @ str ''kg tomatoes'' @ str '' and 20kg tomatoes''"
    by (simp add: str_def)
  have t: "first_quantity tomatoes (str ''10kg tomatoes and 20kg tomatoes'') = Some 10"
    using first_match_only [of _ "[]" "str ''10''" "str '' and 20kg tomatoes''"] digits_10
    unfolding s by simp
  have line: "str ''Tomatoes'' @ str '': '' @ nat_text 10 @ str ''kg'' = str ''Tomatoes: 10kg''"
    by (simp add: nat_text.simps str_def digit_char_def)
  have "items (extractFoodItems (str ''10kg tomatoes and 20kg tomatoes'')) = [str ''Tomatoes: 10kg''] \<and>
        totalQuantity (extractFoodItems (str ''10kg tomatoes and 20kg tomatoes'')) = 10 \<and>
        totalValue (extractFoodItems (str ''10kg tomatoes and 20kg tomatoes'')) = 150"
    using first_match_only [of "str ''10kg tomatoes and 20kg tomatoes''"]
    by (simp add: patterns_def entry_def t twice_others tomatoes_fields line)
  then show ?thesis
    by (cases "extractFoodItems (str ''10kg tomatoes and 20kg tomatoes'')") simp
qed

section \<open>Digits\<close>

lemma digits_val_snoc: "digits_val (ds @ [d]) = 10 * digits_val ds + (d - 48)"
  by (simp add: digits_val_def)

lemma nat_text_small: "n < 10 \<Longrightarrow> nat_text n = [digit_char n]"
  by (simp add: nat_text.simps)

lemma nat_text_big:
  "\<not> n < 10 \<Longrightarrow> nat_text n = nat_text (n div 10) @ [digit_char (n mod 10)]"
  by (subst nat_text.simps) simp

lemma nat_text_digits: "list_all digit (nat_text n)"
proof (induction n rule: nat_text.induct)
  case (1 n)
  show ?case
  proof (cases "n < 10")
    case True
    then show ?thesis by (simp add: nat_text_small digit_char_def digit_def)
  next
    case False
    with 1 show ?thesis by (simp add: nat_text_big digit_char_def digit_def)
  qed
qed

lemma nat_text_nonempty: "nat_text n \<noteq> []"
  by (cases "n < 10") (simp_all add: nat_text_small nat_text_big)

lemma digits_val_nat_text: "digits_val (nat_text n) = n"
proof (induction n rule: nat_text.induct)
  case (1 n)
  show ?case
  proof (cases "n < 10")
    case True
    then show ?thesis
      by (simp add: nat_text_small digits_val_def digit_char_def)
  next
    case False
    with 1 show ?thesis
      by (simp add: nat_text_big digits_val_snoc digit_char_def)
  qed
qed

lemma hd_nat_text: "hd (nat_text n) = 48 \<Longrightarrow> n < 10"
proof (induction n rule: nat_text.induct)
  case (1 n)
  show ?case
  proof (rule ccontr)
    assume big: "\<not> n < 10"
    with 1(2) nat_text_nonempty [of "n div 10"] have h: "hd (nat_text (n div 10)) = 48"
      by (simp add: nat_text_big)
    with 1(1) big have "n div 10 < 10" by simp
    with h have "n div 10 = 0"
      by (simp add: nat_text_small digit_char_def)
    with big show False by simp
  qed
qed

lemma length_nat_text: "1 < length (nat_text n) \<Longrightarrow> 10 \<le> n"
  by (cases "n < 10") (simp_all add: nat_text_small)

section \<open>Decimal fractions\<close>

lemma denominator_decreases:
  assumes f: "0 < f" "f < 1" and d: "decimal f"
  shows "snd (quotient_of (10 * f - of_int z)) < snd (quotient_of f)"
proof -
  obtain p q where pq: "quotient_of f = (p, q)" by (cases "quotient_of f")
  have q0: "0 < q" and cop: "coprime p q" and fq: "f = of_int p / of_int q"
    using quotient_of_denom_pos [OF pq] quotient_of_coprime [OF pq] quotient_of_div [OF pq]
    by simp_all
  have "q \<noteq> 1"
  proof
    assume "q = 1"
    with fq have "f = of_int p" by simp
    with f show False by simp
  qed
  with q0 have q1: "1 < q" by simp
  from d obtain k where "f * 10 ^ k \<in> \<int>" by (auto simp: decimal_def)
  then obtain m where m: "f * 10 ^ k = of_int m" by (auto elim: Ints_cases)
  have "(of_int (p * 10 ^ k) :: rat) = of_int (m * q)"
    using m q0 fq by (simp add: field_simps)
  then have "p * 10 ^ k = m * q" by (simp only: of_int_eq_iff)
  then have "q dvd p * 10 ^ k" by simp
  with cop have qd: "q dvd 10 ^ k"
    by (simp add: coprime_commute coprime_dvd_mult_right_iff)
  have ncop: "\<not> coprime 10 q"
  proof
    assume "coprime 10 q"
    then have "coprime (10 ^ k) q" by simp
    with qd have "is_unit q" by (metis coprime_self dvd_refl coprime_divisors)
    with q1 show False by simp
  qed
  define g where "g = gcd (10 * p - z * q) q"
  have "g = gcd (10 * p) q"
    unfolding g_def by (metis gcd.commute gcd_add_mult mult_minus_left uminus_add_conv_diff)
  also have "\<dots> = gcd 10 q"
    using cop by (simp add: gcd_mult_left_right_cancel coprime_commute)
  finally have g10: "g = gcd 10 q" .
  have "g \<noteq> 1" using ncop unfolding g10 by (simp add: coprime_iff_gcd_eq_1)
  moreover have "0 < g" using q0 unfolding g10 by (simp add: gcd_pos_int)
  ultimately have g1: "1 < g" by simp
  have "10 * f - of_int z = of_int (10 * p - z * q) / of_int q"
    using q0 fq by (simp add: field_simps)
  also have "\<dots> = Fract (10 * p - z * q) q"
    by (simp only: Fract_of_int_quotient)
  finally have "quotient_of (10 * f - of_int z) = Rat.normalize (10 * p - z * q, q)"
    by (simp only: quotient_of_Fract)
  then have "snd (quotient_of (10 * f - of_int z)) = q div g"
    using q0 by (simp add: Rat.normalize_def Let_def g_def)
  also have "\<dots> < q"
    using q0 g1 by (rule int_div_less_self)
  finally show ?thesis
    by (simp add: pq)
qed

lemma foldl_digits:
  "foldl (\<lambda>n d. 10 * n + (d - 48)) (a::nat) ds =
     a * 10 ^ length ds + foldl (\<lambda>n d. 10 * n + (d - 48)) 0 ds"
proof (induction ds arbitrary: a)
  case Nil
  then show ?case by simp
next
  case (Cons d ds)
  show ?case
    using Cons [of "10 * a + (d - 48)"] Cons [of "d - 48"]
    by (simp add: algebra_simps)
qed

lemma digits_val_Cons: "digits_val (d # ds) = (d - 48) * 10 ^ length ds + digits_val ds"
  using foldl_digits [of "d - 48" ds] by (simp add: digits_val_def)

lemma decimal_step: "decimal f \<Longrightarrow> decimal (10 * f - of_int z)"
proof -
  assume "decimal f"
  then obtain k where k: "f * 10 ^ k \<in> \<int>" by (auto simp: decimal_def)
  have "10 * (f * 10 ^ k) \<in> \<int>"
    by (rule Ints_mult [OF _ k]) simp
  moreover have "of_int z * (10::rat) ^ k \<in> \<int>"
    by (rule Ints_mult) simp_all
  ultimately have "10 * (f * 10 ^ k) - of_int z * 10 ^ k \<in> \<int>"
    by (rule Ints_diff)
  then have "(10 * f - of_int z) * 10 ^ k \<in> \<int>"
    by (simp add: algebra_simps)
  then show ?thesis by (auto simp: decimal_def)
qed

lemma frac_text_exact:
  assumes "0 \<le> f" "f < 1" "decimal f" "nat (snd (quotient_of f)) \<le> n"
  shows "list_all digit (frac_text n f) \<and>
         of_nat (digits_val (frac_text n f)) / 10 ^ length (frac_text n f) = f \<and>
         (f \<noteq> 0 \<longrightarrow> frac_text n f \<noteq> [])"
  using assms
proof (induction n arbitrary: f)
  case 0
  with quotient_of_denom_pos' [of f] show ?case by simp
next
  case (Suc n)
  show ?case
  proof (cases "f = 0")
    case True
    then show ?thesis by (simp add: digits_val_def)
  next
    case False
    define z where "z = \<lfloor>10 * f\<rfloor>"
    define f' where "f' = 10 * f - of_int z"
    have z: "0 \<le> z" "z \<le> 9"
      using Suc.prems(1,2) unfolding z_def by (simp_all add: floor_le_iff le_floor_iff)
    have f': "0 \<le> f'" "f' < 1"
      unfolding f'_def z_def by linarith+
    have "0 < f" using False Suc.prems(1) by simp
    from denominator_decreases [OF this Suc.prems(2,3), of z] Suc.prems(4)
    have "nat (snd (quotient_of f')) \<le> n"
      unfolding f'_def using quotient_of_denom_pos' [of f] by linarith
    from Suc.IH [OF f' decimal_step [OF Suc.prems(3), of z, folded f'_def] this]
    have IH: "list_all digit (frac_text n f')"
      "of_nat (digits_val (frac_text n f')) / 10 ^ length (frac_text n f') = f'"
      by simp_all
    have t: "frac_text (Suc n) f = digit_char (nat z) # frac_text n f'"
      using False by (simp add: z_def f'_def)
    have d: "digit (digit_char (nat z))" "digit_char (nat z) - 48 = nat z"
      using z by (simp_all add: digit_char_def digit_def)
    have "(of_nat (digits_val (frac_text (Suc n) f)) :: rat) =
          of_int z * 10 ^ length (frac_text n f') + of_nat (digits_val (frac_text n f'))"
      unfolding t using z by (simp add: digits_val_Cons d del: frac_text.simps)
    then have "(of_nat (digits_val (frac_text (Suc n) f)) :: rat) / 10 ^ length (frac_text (Suc n) f) =
          (of_int z + f') / 10"
      unfolding t using IH(2) by (simp add: field_simps del: frac_text.simps)
    also have "\<dots> = f" by (simp add: f'_def)
    finally show ?thesis
      unfolding t using IH(1) d(1) by (simp del: frac_text.simps)
  qed
qed

lemma takeWhile_digits_end:
  "list_all digit ds \<Longrightarrow> rest = [] \<or> \<not> digit (hd rest) \<Longrightarrow> takeWhile digit (ds @ rest) = ds"
  by (cases rest) (auto simp: list_all_iff takeWhile_append2)

lemma dropWhile_digits_end:
  "list_all digit ds \<Longrightarrow> rest = [] \<or> \<not> digit (hd rest) \<Longrightarrow> dropWhile digit (ds @ rest) = rest"
  by (cases rest) (auto simp: list_all_iff dropWhile_append2)

lemma number_end_digits: "number_end rest \<Longrightarrow> rest = [] \<or> \<not> digit (hd rest)"
  by (auto simp: number_end_def)

lemma num_text_nonneg:
  "0 \<le> a \<Longrightarrow>
   num_text a = nat_text (nat \<lfloor>a\<rfloor>) @
     (if a - of_int \<lfloor>a\<rfloor> = 0 then []
      else 46 # frac_text (nat (snd (quotient_of (a - of_int \<lfloor>a\<rfloor>)))) (a - of_int \<lfloor>a\<rfloor>))"
  by (simp add: num_text_def Let_def cu_def)

lemma num_text_neg: "a < 0 \<Longrightarrow> num_text a = 45 # num_text (- a)"
  by (simp add: num_text_def Let_def cu_def)

lemma decimal_minus: "decimal a \<Longrightarrow> decimal (- a)"
  by (auto simp: decimal_def)

lemma decimal_frac: "decimal a \<Longrightarrow> decimal (a - of_int z)"
proof -
  assume "decimal a"
  then obtain k where k: "a * 10 ^ k \<in> \<int>" by (auto simp: decimal_def)
  have "of_int z * (10::rat) ^ k \<in> \<int>"
    by (rule Ints_mult) simp_all
  with k have "a * 10 ^ k - of_int z * 10 ^ k \<in> \<int>"
    by (rule Ints_diff)
  then have "(a - of_int z) * 10 ^ k \<in> \<int>"
    by (simp add: algebra_simps)
  then show ?thesis by (auto simp: decimal_def)
qed

lemma number_token_nonneg:
  assumes "0 \<le> a" "decimal a" "number_end rest"
  shows "number_token (num_text a @ rest) = Some (a, rest)"
proof -
  define i where "i = nat \<lfloor>a\<rfloor>"
  define f where "f = a - of_int \<lfloor>a\<rfloor>"
  have a: "a = of_nat i + f"
    using assms(1) by (simp add: i_def f_def)
  have f: "0 \<le> f" "f < 1"
    unfolding f_def by linarith+
  have df: "decimal f"
    unfolding f_def using assms(2) by (rule decimal_frac)
  define tail where "tail = (if f = 0 then [] else 46 # frac_text (nat (snd (quotient_of f))) f) @ rest"
  have shape: "num_text a @ rest = nat_text i @ tail"
    using assms(1) by (simp add: num_text_nonneg i_def f_def tail_def)
  have nd: "tail = [] \<or> \<not> digit (hd tail)"
    using number_end_digits [OF assms(3)] by (auto simp: tail_def digit_def)
  have nm: "(case nat_text i @ tail of [] \<Rightarrow> (False, nat_text i @ tail)
      | m # t \<Rightarrow> if m = 45 then (True, t) else (False, nat_text i @ tail)) =
      (False, nat_text i @ tail)"
    using nat_text_digits [of i] nat_text_nonempty [of i]
    by (cases "nat_text i") (auto simp: digit_def)
  have lead: "\<not> (1 < length (nat_text i) \<and> hd (nat_text i) = 48)"
    using hd_nat_text [of i] length_nat_text [of i] by auto
  have ex: "exponent_part rest = Some (0, rest)"
    using assms(3) by (cases rest) (auto simp: exponent_part_def number_end_def)
  have fr: "fraction_part tail = Some (f, rest)"
  proof (cases "f = 0")
    case True
    then show ?thesis
      using assms(3) by (cases rest) (auto simp: tail_def fraction_part_def number_end_def)
  next
    case False
    define ds where "ds = frac_text (nat (snd (quotient_of f))) f"
    have ds: "list_all digit ds" "of_nat (digits_val ds) / 10 ^ length ds = f" "ds \<noteq> []"
      using frac_text_exact [OF f df, of "nat (snd (quotient_of f))"] False
      by (simp_all add: ds_def)
    have "tail = 46 # ds @ rest"
      using False by (simp add: tail_def ds_def)
    then show ?thesis
      using ds number_end_digits [OF assms(3)]
      by (simp add: fraction_part_def takeWhile_digits_end dropWhile_digits_end)
  qed
  show ?thesis
    unfolding shape number_token_def nm
    using lead nat_text_nonempty [of i]
    by (simp add: takeWhile_digits_end dropWhile_digits_end nat_text_digits nd fr ex
        digits_val_nat_text scale10_def Let_def a)
qed

lemma scale10_minus: "scale10 (- v) e = - scale10 v e"
  by (simp add: scale10_def)

lemma number_token_minus:
  assumes "number_token (c # cs) = Some (a, rest)" "c \<noteq> 45"
  shows "number_token (45 # c # cs) = Some (- a, rest)"
  using assms
  by (auto simp: number_token_def Let_def scale10_minus simp del: minus_add_distrib
      split: option.splits if_splits)

lemma num_text_first:
  assumes "0 \<le> a"
  shows "\<exists>c cs. num_text a = c # cs \<and> digit c"
proof -
  obtain d ds where n: "nat_text (nat \<lfloor>a\<rfloor>) = d # ds"
    using nat_text_nonempty [of "nat \<lfloor>a\<rfloor>"] by (cases "nat_text (nat \<lfloor>a\<rfloor>)") auto
  with nat_text_digits [of "nat \<lfloor>a\<rfloor>"] have "digit d" by simp
  with n show ?thesis
    unfolding num_text_nonneg [OF assms] by simp
qed

lemma number_token_decimal:
  assumes "decimal r" "number_end rest"
  shows "number_token (num_text r @ rest) = Some (r, rest)"
proof (cases "0 \<le> r")
  case True
  then show ?thesis using assms by (rule number_token_nonneg)
next
  case False
  then have neg: "r < 0" "0 \<le> - r" by simp_all
  from num_text_first [OF neg(2)] obtain c cs where
    c: "num_text (- r) = c # cs" "digit c" by blast
  have "number_token (c # cs @ rest) = Some (- r, rest)"
    using number_token_nonneg [OF neg(2) decimal_minus [OF assms(1)] assms(2)] c(1) by simp
  moreover from c(2) have "c \<noteq> 45" by (auto simp: digit_def)
  ultimately have "number_token (45 # c # cs @ rest) = Some (- (- r), rest)"
    by (rule number_token_minus)
  then show ?thesis
    by (simp add: num_text_neg [OF neg(1)] c(1))
qed

lemma num_text_head_decimal: "\<exists>c cs. num_text r = c # cs \<and> (c = 45 \<or> digit c)"
proof (cases "0 \<le> r")
  case True
  from num_text_first [OF this] show ?thesis by blast
next
  case False
  then show ?thesis by (simp add: num_text_neg)
qed

section \<open>String literals\<close>

lemma hex_val_hex_digit: "d < 16 \<Longrightarrow> hex_val (hex_digit d) = Some d"
  by (auto simp: hex_val_def hex_digit_def)

lemma hex_recompose:
  fixes u :: nat
  assumes "u < 65536"
  shows "((u div 4096 mod 16 * 16 + u div 256 mod 16) * 16 + u div 16 mod 16) * 16 + u mod 16 = u"
proof -
  define a where "a = u div 16"
  define b where "b = a div 16"
  define c where "c = b div 16"
  have b: "u div 256 = b"
    using div_mult2_eq [of u 16 16] by (simp add: a_def b_def)
  have c: "u div 4096 = c"
    using div_mult2_eq [of u 256 16] by (simp add: b c_def)
  have "c < 16"
    using assms unfolding c [symmetric] by simp
  then have c16: "c mod 16 = c" by simp
  have u: "u = a * 16 + u mod 16" by (simp add: a_def)
  have a: "a = b * 16 + a mod 16" by (simp add: b_def)
  have b': "b = c * 16 + b mod 16" by (simp add: c_def)
  have "((c * 16 + b mod 16) * 16 + a mod 16) * 16 + u mod 16 = u"
    using u a b' by simp
  then show ?thesis
    unfolding b c c16 a_def [symmetric] .
qed

lemma string_body_uescape:
  "u < 65536 \<Longrightarrow> string_body (uescape u @ s) = cons_fst u (string_body s)"
  using hex_recompose [of u]
  by (simp add: uescape_def hex_val_hex_digit)

lemma cons_fst_Some [simp]: "cons_fst x (Some (xs, y)) = Some (x # xs, y)"
  by (simp add: cons_fst_def)

lemma string_body_escape:
  "escape_val e = Some u \<Longrightarrow> e \<noteq> 117 \<Longrightarrow> string_body (92 # e # s) = cons_fst u (string_body s)"
  by simp

lemma string_body_literal:
  "c \<noteq> 34 \<Longrightarrow> c \<noteq> 92 \<Longrightarrow> \<not> c < 32 \<Longrightarrow> string_body (c # s) = cons_fst c (string_body s)"
  by simp

lemma string_body_quote: "string_body (34 # rest) = Some ([], rest)"
  by simp

lemma string_body_quote_body:
  "string_body (quote_body s @ 34 # rest) = Some (s, rest)"
proof (induction "length s" arbitrary: s rule: less_induct)
  case less
  show ?case
  proof (cases s)
    case Nil
    then show ?thesis by (simp only: quote_body.simps append_Nil string_body_quote)
  next
    case (Cons c cs)
    have IH: "string_body (quote_body cs @ 34 # rest) = Some (cs, rest)"
      using less [of cs] Cons by simp
    consider (esc) "c \<in> {8, 9, 10, 12, 13, 34, 92}"
      | (ctl) "c \<notin> {8, 9, 10, 12, 13, 34, 92}" "c < 32"
      | (pair) d ds where "\<not> c < 32" "high_surrogate c" "cs = d # ds" "low_surrogate d"
      | (lone_end) "\<not> c < 32" "high_surrogate c" "cs = []"
      | (lone) d ds where "\<not> c < 32" "high_surrogate c" "cs = d # ds" "\<not> low_surrogate d"
      | (low) "\<not> c < 32" "\<not> high_surrogate c" "low_surrogate c"
      | (lit) "c \<notin> {8, 9, 10, 12, 13, 34, 92}" "\<not> c < 32" "\<not> high_surrogate c"
          "\<not> low_surrogate c"
      by (cases cs) (auto simp: high_surrogate_def)
    then show ?thesis
    proof cases
      case esc
      then obtain e where e: "quote_body (c # cs) = 92 # e # quote_body cs"
        "escape_val e = Some c" "e \<noteq> 117"
        by (auto simp: escape_val_def)
      show ?thesis
        unfolding Cons e(1) append_Cons string_body_escape [OF e(2,3)] IH
        by simp
    next
      case ctl
      then have q: "quote_body (c # cs) = uescape c @ quote_body cs"
        by simp
      from ctl have "c < 65536" by simp
      then have "string_body (uescape c @ quote_body cs @ 34 # rest) =
          cons_fst c (string_body (quote_body cs @ 34 # rest))"
        by (rule string_body_uescape)
      then show ?thesis
        unfolding Cons q append_assoc IH
        by simp
    next
      case pair
      then have hs: "c \<noteq> 34" "c \<noteq> 92" "d \<noteq> 34" "d \<noteq> 92" "\<not> d < 32"
        by (simp_all add: high_surrogate_def low_surrogate_def)
      from pair hs have q: "quote_body (c # cs) = c # d # quote_body ds"
        by (simp add: high_surrogate_def)
      have "string_body (quote_body ds @ 34 # rest) = Some (ds, rest)"
        using less [of ds] Cons pair by simp
      then show ?thesis
        unfolding Cons q append_Cons
          string_body_literal [OF hs(1,2) pair(1)] string_body_literal [OF hs(3,4,5)]
        using pair by simp
    next
      case lone_end
      then have q: "quote_body (c # cs) = uescape c"
        by (simp add: high_surrogate_def)
      from lone_end have "c < 65536" by (simp add: high_surrogate_def)
      then have "string_body (uescape c @ 34 # rest) = cons_fst c (string_body (34 # rest))"
        by (rule string_body_uescape)
      then show ?thesis
        unfolding Cons q string_body_quote using lone_end by simp
    next
      case lone
      then have q: "quote_body (c # cs) = uescape c @ quote_body cs"
        by (simp add: high_surrogate_def)
      from lone have "c < 65536" by (simp add: high_surrogate_def)
      then have "string_body (uescape c @ quote_body cs @ 34 # rest) =
          cons_fst c (string_body (quote_body cs @ 34 # rest))"
        by (rule string_body_uescape)
      then show ?thesis
        unfolding Cons q append_assoc IH
        by simp
    next
      case low
      then have q: "quote_body (c # cs) = uescape c @ quote_body cs"
        by (simp add: low_surrogate_def)
      from low have "c < 65536" by (simp add: low_surrogate_def)
      then have "string_body (uescape c @ quote_body cs @ 34 # rest) =
          cons_fst c (string_body (quote_body cs @ 34 # rest))"
        by (rule string_body_uescape)
      then show ?thesis
        unfolding Cons q append_assoc IH
        by simp
    next
      case lit
      then have q: "quote_body (c # cs) = c # quote_body cs"
        by simp
      from lit have hs: "c \<noteq> 34" "c \<noteq> 92" by simp_all
      show ?thesis
        unfolding Cons q append_Cons string_body_literal [OF hs lit(2)] IH
        by simp
    qed
  qed
qed

section \<open>Tokens of a printed value\<close>

lemma value_end_number_end: "value_end rest \<Longrightarrow> number_end rest"
  by (auto simp: value_end_def number_end_def digit_def)

lemma value_end_simps: "value_end (44 # s)" "value_end (93 # s)" "value_end (125 # s)" "value_end []"
  by (simp_all add: value_end_def)

lemma prepend_Nil: "prepend [] r = r"
  by (cases r) (simp_all add: prepend_def)

lemma prepend_Cons: "prepend (t # ts) r = cons_opt t (prepend ts r)"
  by (cases r) (simp_all add: prepend_def cons_opt_def)

lemma prepend_append: "prepend (a @ b) r = prepend a (prepend b r)"
  by (cases r) (simp_all add: prepend_def)

lemma prepend_Some: "prepend ts (Some us) = Some (ts @ us)"
  by (simp add: prepend_def)

lemma tokens_punct:
  "tokens (123 # s) = cons_opt LBrace (tokens s)"
  "tokens (125 # s) = cons_opt RBrace (tokens s)"
  "tokens (91 # s) = cons_opt LBrack (tokens s)"
  "tokens (93 # s) = cons_opt RBrack (tokens s)"
  "tokens (58 # s) = cons_opt Colon (tokens s)"
  "tokens (44 # s) = cons_opt Comma (tokens s)"
  by (simp_all add: json_ws_def)

lemma tokens_words:
  "tokens (str ''null'' @ s) = cons_opt TNull (tokens s)"
  "tokens (str ''true'' @ s) = cons_opt TTrue (tokens s)"
  "tokens (str ''false'' @ s) = cons_opt TFalse (tokens s)"
  by (simp_all add: str_def json_ws_def)

lemma tokens_string:
  "tokens (quote s @ rest) = cons_opt (TStr s) (tokens rest)"
  using string_body_quote_body [of s rest]
  by (simp add: quote_def json_ws_def)

lemma tokens_number:
  assumes "number_token (c # cs) = Some (r, rest)" "c = 45 \<or> digit c"
  shows "tokens (c # cs) = cons_opt (TNum r) (tokens rest)"
proof -
  from assms(2) have "\<not> json_ws c" "c \<notin> {123, 125, 91, 93, 58, 44, 34, 116, 102, 110}"
    by (auto simp: json_ws_def digit_def)
  with assms show ?thesis
    by (subst tokens.simps) (simp del: tokens.simps)
qed

lemma tokens_num_text:
  assumes "decimal r" "value_end rest"
  shows "tokens (num_text r @ rest) = cons_opt (TNum r) (tokens rest)"
proof -
  from num_text_head_decimal [of r] obtain c cs where
    h: "num_text r = c # cs" "c = 45 \<or> digit c" by blast
  have "number_token (c # cs @ rest) = Some (r, rest)"
    using number_token_decimal [OF assms(1) value_end_number_end [OF assms(2)]] h(1) by simp
  from tokens_number [OF this h(2)] h(1) show ?thesis by simp
qed

lemma tokens_elements:
  assumes "\<And>x rest. x \<in> set xs \<Longrightarrow> value_end rest \<Longrightarrow>
             tokens (f x @ rest) = prepend (g x) (tokens rest)"
    and "value_end rest"
  shows "tokens (join (str '','') (map f xs) @ rest) =
           prepend (commas (map g xs)) (tokens rest)"
  using assms
proof (induction xs rule: induct_list012)
  case 1
  then show ?case by (simp add: prepend_Nil)
next
  case (2 x)
  then show ?case by simp
next
  case (3 x y zs)
  have "tokens (join (str '','') (map f (y # zs)) @ rest) =
          prepend (commas (map g (y # zs))) (tokens rest)"
    using 3 by simp
  moreover have "tokens (f x @ 44 # join (str '','') (map f (y # zs)) @ rest) =
      prepend (g x) (tokens (44 # join (str '','') (map f (y # zs)) @ rest))"
    using 3(3) [of x] by (simp add: value_end_simps)
  ultimately show ?case
    by (simp add: str_def tokens_punct prepend_Cons prepend_append prepend_Nil
        del: tokens.simps)
qed

lemma tokens_stringify:
  "plain v \<Longrightarrow> value_end rest \<Longrightarrow>
   tokens (JSON_stringify v @ rest) = prepend (toks v) (tokens rest)"
proof (induction v arbitrary: rest)
  case JNull
  then show ?case by (simp add: tokens_words prepend_Cons prepend_Nil del: tokens.simps)
next
  case (JBool b)
  then show ?case by (simp add: tokens_words prepend_Cons prepend_Nil del: tokens.simps)
next
  case (JNum r)
  then show ?case by (simp add: tokens_num_text prepend_Cons prepend_Nil del: tokens.simps)
next
  case (JStr s)
  then show ?case by (simp add: tokens_string prepend_Cons prepend_Nil del: tokens.simps)
next
  case (JArr xs)
  have "tokens (join (str '','') (map JSON_stringify xs) @ 93 # rest) =
          prepend (commas (map toks xs)) (tokens (93 # rest))"
    using JArr by (intro tokens_elements) (auto simp: value_end_simps)
  then show ?case
    by (simp add: str_def tokens_punct prepend_Cons prepend_append prepend_Nil
        del: tokens.simps)
next
  case (JObj kvs)
  have "tokens (join (str '','') (map (\<lambda>kv. quote (fst kv) @ str '':'' @ JSON_stringify (snd kv)) kvs)
            @ 125 # rest) =
          prepend (commas (map (\<lambda>kv. TStr (fst kv) # Colon # toks (snd kv)) kvs))
            (tokens (125 # rest))"
  proof (intro tokens_elements)
    fix kv r
    assume kv: "kv \<in> set kvs" and r: "value_end r"
    obtain k v where p: "kv = (k, v)" by (cases kv)
    with kv JObj.prems(1) have "plain v" by auto
    with JObj.IH [of kv v r] kv p r have
      "tokens (JSON_stringify v @ r) = prepend (toks v) (tokens r)"
      by simp
    then show "tokens ((quote (fst kv) @ str '':'' @ JSON_stringify (snd kv)) @ r) =
        prepend (TStr (fst kv) # Colon # toks (snd kv)) (tokens r)"
      by (simp add: p tokens_string str_def tokens_punct prepend_Cons del: tokens.simps)
  qed (simp add: value_end_simps)
  then show ?case
    by (simp add: str_def tokens_punct prepend_Cons prepend_append prepend_Nil
        del: tokens.simps)
qed

section \<open>The stack machine on the tokens of a value\<close>

lemma run_tokens_append:
  "run_tokens p (ts @ us) = (case run_tokens p ts of None \<Rightarrow> None | Some q \<Rightarrow> run_tokens q us)"
proof (induction ts arbitrary: p)
  case Nil
  then show ?case by simp
next
  case (Cons t ts)
  then show ?case
    by (cases p) (simp_all split: option.splits)
qed

lemma step_scalars:
  assumes "expects_value st"
  shows "step st (TStr s) = deliver (JStr s) st"
    "step st (TNum r) = deliver (JNum r) st"
    "step st TTrue = deliver (JBool True) st"
    "step st TFalse = deliver (JBool False) st"
    "step st TNull = deliver JNull st"
    "step st LBrack = Some (Busy (A0 # st))"
    "step st LBrace = Some (Busy (O0 # st))"
  using assms by (cases st rule: expects_value.cases; simp)+

lemma deliver_expected: "expects_value st \<Longrightarrow> \<exists>p. deliver v st = Some p"
  by (cases st rule: expects_value.cases) simp_all

lemma put_fresh: "k \<notin> fst ` set kvs \<Longrightarrow> put k v kvs = kvs @ [(k, v)]"
  by (induction kvs) auto

lemma readsD:
  "reads v \<Longrightarrow> expects_value st \<Longrightarrow> deliver v st = Some p \<Longrightarrow>
   run_tokens (Busy st) (toks v @ ts) = run_tokens p ts"
  by (simp add: reads_def run_tokens_append)

lemma elements_after_comma:
  assumes "\<forall>x\<in>set xs. reads x" "xs \<noteq> []"
  shows "run_tokens (Busy (A2 acc # st)) (commas (map toks xs) @ ts) =
           run_tokens (Busy (A1 (acc @ xs) # st)) ts"
  using assms
proof (induction xs arbitrary: acc rule: induct_list012)
  case 1
  then show ?case by simp
next
  case (2 x)
  then show ?case
    using readsD [of x "A2 acc # st" "Busy (A1 (acc @ [x]) # st)" ts] by simp
next
  case (3 x y zs)
  have "run_tokens (Busy (A2 acc # st)) (toks x @ Comma # commas (map toks (y # zs)) @ ts) =
        run_tokens (Busy (A1 (acc @ [x]) # st)) (Comma # commas (map toks (y # zs)) @ ts)"
    using 3(3) readsD [of x "A2 acc # st" "Busy (A1 (acc @ [x]) # st)"] by simp
  also have "\<dots> = run_tokens (Busy (A2 (acc @ [x]) # st)) (commas (map toks (y # zs)) @ ts)"
    by simp
  also have "\<dots> = run_tokens (Busy (A1 ((acc @ [x]) @ y # zs) # st)) ts"
    using 3 by simp
  finally show ?case by simp
qed

lemma elements_first:
  assumes "\<forall>x\<in>set xs. reads x" "xs \<noteq> []"
  shows "run_tokens (Busy (A0 # st)) (commas (map toks xs) @ ts) =
           run_tokens (Busy (A1 xs # st)) ts"
proof (cases xs)
  case Nil
  with assms show ?thesis by simp
next
  case (Cons x ys)
  show ?thesis
  proof (cases ys)
    case Nil
    with Cons assms show ?thesis
      using readsD [of x "A0 # st" "Busy (A1 [x] # st)" ts] by simp
  next
    case (Cons y zs)
    have "run_tokens (Busy (A0 # st)) (toks x @ Comma # commas (map toks ys) @ ts) =
          run_tokens (Busy (A1 [x] # st)) (Comma # commas (map toks ys) @ ts)"
      using assms \<open>xs = x # ys\<close> readsD [of x "A0 # st" "Busy (A1 [x] # st)"] by simp
    also have "\<dots> = run_tokens (Busy (A2 [x] # st)) (commas (map toks ys) @ ts)"
      by simp
    also have "\<dots> = run_tokens (Busy (A1 ([x] @ ys) # st)) ts"
      using assms \<open>xs = x # ys\<close> Cons by (intro elements_after_comma) auto
    finally show ?thesis
      using \<open>xs = x # ys\<close> Cons by simp
  qed
qed

lemma reads_array:
  assumes "\<forall>x\<in>set xs. reads x"
  shows "reads (JArr xs)"
  unfolding reads_def
proof (intro allI impI)
  fix st p
  assume st: "expects_value st" and d: "deliver (JArr xs) st = Some p"
  show "run_tokens (Busy st) (toks (JArr xs)) = Some p"
  proof (cases "xs = []")
    case True
    with st d show ?thesis by (simp add: step_scalars)
  next
    case False
    have "run_tokens (Busy st) (toks (JArr xs)) =
          run_tokens (Busy (A0 # st)) (commas (map toks xs) @ [RBrack])"
      using st by (simp add: step_scalars)
    also have "\<dots> = run_tokens (Busy (A1 xs # st)) [RBrack]"
      using assms False by (rule elements_first)
    also have "\<dots> = Some p"
      using d by (simp split: option.splits)
    finally show ?thesis .
  qed
qed

lemma member_tokens:
  assumes "reads v" "k \<notin> fst ` set acc" "fr = O4 acc \<or> (fr = O0 \<and> acc = [])"
  shows "run_tokens (Busy (fr # st)) ((TStr k # Colon # toks v) @ ts) =
           run_tokens (Busy (O3 (acc @ [(k, v)]) # st)) ts"
proof -
  have "run_tokens (Busy (fr # st)) ((TStr k # Colon # toks v) @ ts) =
        run_tokens (Busy (O2 acc k # st)) (toks v @ ts)"
    using assms(3) by auto
  also have "\<dots> = run_tokens (Busy (O3 (put k v acc) # st)) ts"
    using readsD [OF assms(1), of "O2 acc k # st" "Busy (O3 (put k v acc) # st)" ts] by simp
  finally show ?thesis
    using assms(2) by (simp add: put_fresh)
qed

lemma members_after_comma:
  assumes "\<forall>kv\<in>set kvs. reads (snd kv)" "kvs \<noteq> []" "distinct (map fst (acc @ kvs))"
  shows "run_tokens (Busy (O4 acc # st))
           (commas (map (\<lambda>kv. TStr (fst kv) # Colon # toks (snd kv)) kvs) @ ts) =
         run_tokens (Busy (O3 (acc @ kvs) # st)) ts"
  using assms
proof (induction kvs arbitrary: acc rule: induct_list012)
  case 1
  then show ?case by simp
next
  case (2 kv)
  obtain k v where kv: "kv = (k, v)" by (cases kv)
  with 2 have "reads v" "k \<notin> fst ` set acc" by auto
  from member_tokens [OF this, of "O4 acc" st ts] kv show ?case by simp
next
  case (3 kv y zs)
  obtain k v where kv: "kv = (k, v)" by (cases kv)
  with 3(3,5) have r: "reads v" "k \<notin> fst ` set acc" by auto
  have d: "distinct (map fst ((acc @ [(k, v)]) @ y # zs))"
    using 3(5) kv by simp
  have "run_tokens (Busy (O4 acc # st))
          ((TStr k # Colon # toks v) @ Comma #
            commas (map (\<lambda>kv. TStr (fst kv) # Colon # toks (snd kv)) (y # zs)) @ ts) =
        run_tokens (Busy (O3 (acc @ [(k, v)]) # st))
          (Comma # commas (map (\<lambda>kv. TStr (fst kv) # Colon # toks (snd kv)) (y # zs)) @ ts)"
    using member_tokens [OF r, of "O4 acc" st] by simp
  also have "\<dots> = run_tokens (Busy (O4 (acc @ [(k, v)]) # st))
          (commas (map (\<lambda>kv. TStr (fst kv) # Colon # toks (snd kv)) (y # zs)) @ ts)"
    by simp
  also have "\<dots> = run_tokens (Busy (O3 ((acc @ [(k, v)]) @ y # zs) # st)) ts"
    using 3(3) d by (intro 3(2)) auto
  finally show ?case
    using kv by simp
qed

lemma members_first:
  assumes "\<forall>kv\<in>set kvs. reads (snd kv)" "kvs \<noteq> []" "distinct (map fst kvs)"
  shows "run_tokens (Busy (O0 # st))
           (commas (map (\<lambda>kv. TStr (fst kv) # Colon # toks (snd kv)) kvs) @ ts) =
         run_tokens (Busy (O3 kvs # st)) ts"
proof (cases kvs)
  case Nil
  with assms show ?thesis by simp
next
  case (Cons kv ys)
  obtain k v where kv: "kv = (k, v)" by (cases kv)
  with Cons assms have r: "reads v" "k \<notin> fst ` set []" by auto
  show ?thesis
  proof (cases ys)
    case Nil
    with Cons kv member_tokens [OF r, of O0 st ts] show ?thesis by simp
  next
    case (Cons y zs)
    have "run_tokens (Busy (O0 # st))
            ((TStr k # Colon # toks v) @ Comma #
              commas (map (\<lambda>kv. TStr (fst kv) # Colon # toks (snd kv)) ys) @ ts) =
          run_tokens (Busy (O3 [(k, v)] # st))
            (Comma # commas (map (\<lambda>kv. TStr (fst kv) # Colon # toks (snd kv)) ys) @ ts)"
      using member_tokens [OF r, of O0 st] by simp
    also have "\<dots> = run_tokens (Busy (O4 [(k, v)] # st))
            (commas (map (\<lambda>kv. TStr (fst kv) # Colon # toks (snd kv)) ys) @ ts)"
      by simp
    also have "\<dots> = run_tokens (Busy (O3 ([(k, v)] @ ys) # st)) ts"
      using assms \<open>kvs = kv # ys\<close> kv Cons by (intro members_after_comma) auto
    finally show ?thesis
      using \<open>kvs = kv # ys\<close> kv Cons by simp
  qed
qed

lemma reads_object:
  assumes "\<forall>kv\<in>set kvs. reads (snd kv)" "distinct (map fst kvs)"
  shows "reads (JObj kvs)"
  unfolding reads_def
proof (intro allI impI)
  fix st p
  assume st: "expects_value st" and d: "deliver (JObj kvs) st = Some p"
  show "run_tokens (Busy st) (toks (JObj kvs)) = Some p"
  proof (cases "kvs = []")
    case True
    with st d show ?thesis by (simp add: step_scalars)
  next
    case False
    have "run_tokens (Busy st) (toks (JObj kvs)) =
          run_tokens (Busy (O0 # st))
            (commas (map (\<lambda>kv. TStr (fst kv) # Colon # toks (snd kv)) kvs) @ [RBrace])"
      using st by (simp add: step_scalars)
    also have "\<dots> = run_tokens (Busy (O3 kvs # st)) [RBrace]"
      using assms(1) False assms(2) by (rule members_first)
    also have "\<dots> = Some p"
      using d by (simp split: option.splits)
    finally show ?thesis .
  qed
qed

lemma plain_reads: "plain v \<Longrightarrow> reads v"
proof (induction v)
  case (JArr xs)
  then show ?case by (intro reads_array) auto
next
  case (JObj kvs)
  have "\<forall>kv\<in>set kvs. reads (snd kv)"
  proof
    fix kv assume kv: "kv \<in> set kvs"
    obtain k v where p: "kv = (k, v)" by (cases kv)
    with kv JObj.prems have "plain v" by auto
    with JObj.IH [of kv v] kv p show "reads (snd kv)" by simp
  qed
  with JObj.prems show ?case by (intro reads_object) auto
qed (simp_all add: reads_def step_scalars split: option.splits)

text \<open>\<open>JSON.parse(JSON.stringify(v))\<close> is \<open>v\<close>.\<close>

lemma JSON_parse_stringify: "plain v \<Longrightarrow> JSON_parse (JSON_stringify v) = Some v"
proof -
  assume p: "plain v"
  have "tokens (JSON_stringify v @ []) = prepend (toks v) (tokens [])"
    using p by (rule tokens_stringify) (simp add: value_end_simps)
  then have t: "tokens (JSON_stringify v) = Some (toks v)"
    by (simp add: prepend_Some)
  have "run_tokens (Busy []) (toks v @ []) = run_tokens (Done v) []"
    using plain_reads [OF p] by (intro readsD) simp_all
  then show ?thesis
    by (simp add: JSON_parse_def t)
qed

lemma stringify_object_shape:
  "JSON_stringify (JObj kvs) \<noteq> [] \<and> hd (JSON_stringify (JObj kvs)) = 123 \<and>
   last (JSON_stringify (JObj kvs)) = 125"
  by (simp add: str_def)

section \<open>Round trip through a response text\<close>

lemma first_to_last_brace_embedded:
  assumes "123 \<notin> set pre" "125 \<notin> set post" "j \<noteq> []" "hd j = 123" "last j = 125"
  shows "first_to_last_brace (pre @ j @ post) = Some j"
proof -
  obtain t where j: "j = 123 # t"
    using assms(3,4) by (cases j) auto
  obtain b where j': "j = b @ [125]"
    using assms(3,5) by (metis append_butlast_last_id)
  have d: "dropWhile (\<lambda>u. u \<noteq> 123) (pre @ j @ post) = j @ post"
    using assms(1) j by (auto simp: dropWhile_append3 dropWhile_append2)
  have "dropWhile (\<lambda>u. u \<noteq> 125) (rev post @ 125 # rev b) = 125 # rev b"
    using assms(2) by (auto simp: dropWhile_append3 dropWhile_append2)
  then have r: "rev (dropWhile (\<lambda>u. u \<noteq> 125) (rev (j @ post))) = j"
    by (simp add: j')
  show ?thesis
    unfolding first_to_last_brace_def braces d Let_def
    using r j' by simp
qed

lemma shelters_span:
  "well_formed_objects (str ''Plan {draft}: {\"total_shelters\": 15}'') =
     [str ''{\"total_shelters\": 15}'']"
  by (simp add: well_formed_objects_def brace_spans_def class_defs parse_defs)

lemma shelters_parse:
  "JSON_parse (str ''{\"total_shelters\": 15}'') = Some (JObj [(str ''total_shelters'', JNum 15)])"
  by (simp add: class_defs parse_defs)

text \<open>
  C2, as stated, fails: this response text contains exactly one well-formed JSON object,
  and \<open>getShelterStats\<close> returns its fallback, not that object, because the match starts
  at the brace of the prose.
\<close>

theorem prose_braces_spoil_extraction:
  "well_formed_objects (str ''Plan {draft}: {\"total_shelters\": 15}'') =
     [str ''{\"total_shelters\": 15}''] \<and>
   JSON_parse (str ''{\"total_shelters\": 15}'') =
     Some (JObj [(str ''total_shelters'', JNum 15)]) \<and>
   fst (getShelterStats braces_service []) = Inr getShelterStats_fallbackData \<and>
   getShelterStats_fallbackData \<noteq> JObj [(str ''total_shelters'', JNum 15)]"
  using braces_candidate braces_candidate_parse string_match_json_regex
    [of "str ''Plan {draft}: {\"total_shelters\": 15}''"]
  by (auto simp: shelters_span shelters_parse getShelterStats_def generateContent_cases
      braces_service_def getShelterStats_fallbackData_def
      simp del: string_match.simps split: option.splits)

lemma wrapping_parts:
  "str ''Sure! {\"total_shelters\": 15} Done.'' =
     str ''Sure! '' @ str ''{\"total_shelters\": 15}'' @ str '' Done.''"
  "123 \<notin> set (str ''Sure! '')" "125 \<notin> set (str '' Done.'')"
  "str ''{\"total_shelters\": 15}'' \<noteq> []"
  "hd (str ''{\"total_shelters\": 15}'') = 123" "last (str ''{\"total_shelters\": 15}'') = 125"
  by (simp_all add: str_def)

lemma decimal_examples: "decimal 30" "decimal (9 / 2)"
proof -
  have "(30::rat) * 10 ^ 0 \<in> \<int>" "(9 / 2 :: rat) * 10 ^ 1 \<in> \<int>"
    by simp_all
  then show "decimal 30" "decimal (9 / 2)"
    unfolding decimal_def by blast+
qed

lemma printed_parts:
  "123 \<notin> set (str ''Here you are: '')" "125 \<notin> set (str '' Anything else?'')"
  "plain (JObj [(str ''total_hospitals'', JNum 30), (str ''rating'', JNum 4.5),
                (str ''names'', JArr [JStr (str ''Apollo {Greams Road}''), JNull])])"
  by (simp_all add: str_def decimal_examples)

text \<open>
  C2, amended. When the response text is \<open>pre @ j @ post\<close>, where \<open>j\<close> runs from a
  \<open>{\<close> to a \<open>}\<close> and parses, \<open>pre\<close> has no \<open>{\<close> and \<open>post\<close> no \<open>}\<close>,
  \<open>generateContent\<close> returns the value that \<open>j\<close> parses to. In particular an object
  printed by \<open>JSON.stringify\<close> into such a text comes back unchanged.
\<close>

theorem embedded_object_is_returned:
  "(model (service_calls tr) (prompt_of systemPrompt userInput) = Inr (pre @ j @ post) \<and>
    123 \<notin> set pre \<and> 125 \<notin> set post \<and> j \<noteq> [] \<and> hd j = 123 \<and> last j = 125 \<and>
    JSON_parse j = Some v \<longrightarrow>
      fst (generateContent model systemPrompt userInput fallbackData tr) = Inr v) \<and>
   (model (service_calls tr) (prompt_of systemPrompt userInput) =
      Inr (pre @ JSON_stringify (JObj kvs) @ post) \<and>
    123 \<notin> set pre \<and> 125 \<notin> set post \<and> plain (JObj kvs) \<longrightarrow>
      fst (generateContent model systemPrompt userInput fallbackData tr) = Inr (JObj kvs))"
proof -
  have main: "fst (generateContent model systemPrompt userInput fallbackData tr) = Inr w"
    if a: "model (service_calls tr) (prompt_of systemPrompt userInput) = Inr (pre @ t @ post)"
      "123 \<notin> set pre" "125 \<notin> set post" "t \<noteq> []" "hd t = 123" "last t = 125"
      "JSON_parse t = Some w" for t w
  proof -
    have "map_option fst (string_match json_regex (pre @ t @ post)) = Some t"
      unfolding string_match_json_regex by (rule first_to_last_brace_embedded [OF a(2-6)])
    then obtain m where "string_match json_regex (pre @ t @ post) = Some m" "fst m = t"
      by auto
    with a(1,7) show ?thesis
      by (simp add: generateContent_cases del: string_match.simps)
  qed
  show ?thesis
    using main [of j v] main [of "JSON_stringify (JObj kvs)" "JObj kvs"]
      stringify_object_shape [of kvs] JSON_parse_stringify [of "JObj kvs"]
    by blast
qed

theorem embedded_object_is_returned_witness:
  "fst (getShelterStats wrapping_service []) = Inr (JObj [(str ''total_shelters'', JNum 15)]) \<and>
   fst (getDashboardStats printing_service []) =
     Inr (JObj [(str ''total_hospitals'', JNum 30), (str ''rating'', JNum 4.5),
                (str ''names'', JArr [JStr (str ''Apollo {Greams Road}''), JNull])])"
  using
    embedded_object_is_returned [of wrapping_service "[]" getShelterStats_systemPrompt
      "str ''Generate shelter statistics''" "str ''Sure! ''" "str ''{\"total_shelters\": 15}''"
      "str '' Done.''" "JObj [(str ''total_shelters'', JNum 15)]"
      "Some getShelterStats_fallbackData"]
    embedded_object_is_returned [where model = printing_service and tr = "[]"
      and systemPrompt = getDashboardStats_systemPrompt
      and userInput = "str ''Generate hospital dashboard stats''"
      and pre = "str ''Here you are: ''" and post = "str '' Anything else?''"
      and kvs = "[(str ''total_hospitals'', JNum 30), (str ''rating'', JNum 4.5),
                  (str ''names'', JArr [JStr (str ''Apollo {Greams Road}''), JNull])]"
      and fallbackData = "Some getDashboardStats_fallbackData"]
    wrapping_parts shelters_parse printed_parts
  by (simp add: wrapping_service_def printing_service_def getShelterStats_def
      getDashboardStats_def del: JSON_stringify.simps)

section \<open>Prompts and fallbacks\<close>

text \<open>
  C4 at \<open>findHospitalIntelligent\<close>: the prompt documents \<open>estimated_time\<close>, which the
  fallback lacks at the top, and the fallback has \<open>emergency_contact\<close>, which the prompt
  does not document; at \<open>allocateShelter\<close> and \<open>getShelterStats\<close> the two agree.
\<close>

theorem findHospitalIntelligent_keys_differ:
  "documented_keys findHospitalIntelligent_systemPrompt =
     [str ''recommended_hospital'', str ''reasoning'', str ''alternatives'',
      str ''estimated_time'', str ''cost_estimate''] \<and>
   keys findHospitalIntelligent_fallbackData =
     [str ''recommended_hospital'', str ''reasoning'', str ''alternatives'',
      str ''cost_estimate'', str ''emergency_contact''] \<and>
   set (documented_keys findHospitalIntelligent_systemPrompt) \<noteq>
     set (keys findHospitalIntelligent_fallbackData) \<and>
   documented_keys allocateShelter_systemPrompt = keys allocateShelter_fallbackData \<and>
   documented_keys getShelterStats_systemPrompt = keys getShelterStats_fallbackData"
proof -
  have d: "documented_keys findHospitalIntelligent_systemPrompt =
     [str ''recommended_hospital'', str ''reasoning'', str ''alternatives'',
      str ''estimated_time'', str ''cost_estimate'']"
    by (simp add: documented_keys_def findHospitalIntelligent_systemPrompt_def str_def nl_def
        cu_def word_char_def digit_def)
  have k: "keys findHospitalIntelligent_fallbackData =
     [str ''recommended_hospital'', str ''reasoning'', str ''alternatives'',
      str ''cost_estimate'', str ''emergency_contact'']"
    by (simp add: findHospitalIntelligent_fallbackData_def)
  have "str ''estimated_time'' \<notin> set (keys findHospitalIntelligent_fallbackData)"
    unfolding k by (simp add: str_def)
  moreover have "str ''estimated_time'' \<in> set (documented_keys findHospitalIntelligent_systemPrompt)"
    unfolding d by simp
  ultimately have n: "set (documented_keys findHospitalIntelligent_systemPrompt) \<noteq>
     set (keys findHospitalIntelligent_fallbackData)"
    by blast
  have a: "documented_keys allocateShelter_systemPrompt = keys allocateShelter_fallbackData"
    by (simp add: documented_keys_def allocateShelter_systemPrompt_def
        allocateShelter_fallbackData_def str_def nl_def cu_def word_char_def digit_def)
  have s: "documented_keys getShelterStats_systemPrompt = keys getShelterStats_fallbackData"
    by (simp add: documented_keys_def getShelterStats_systemPrompt_def
        getShelterStats_fallbackData_def str_def nl_def cu_def word_char_def digit_def)
  from d k n a s show ?thesis by blast
qed

end
